theory Spec2Isabelle
  imports Main "HOL-Library.Word"
begin

section \<open>Gatekeeper: the gate controller of src/main.cpp\<close>

text \<open>
  The firmware talks to the outside through library calls only: the serial console, the
  GPIO line of the gate, the Ethernet driver, the MQTT client, the OTA service and the
  SoC (delay, restart). Every such call is an event of a trace, in program order; what
  the outside answers (whether a connect succeeds, which network events arrive while the
  program waits, what the MQTT client's poll delivers) is an input of the function that
  asks for it.
\<close>

subsection \<open>Global constants\<close>

definition APP_VERSION :: string where "APP_VERSION = ''0.1''"
definition MQTT_CLIENT_ID :: string where "MQTT_CLIENT_ID = ''gatekeeper''"
definition MQTT_SERVER :: string where "MQTT_SERVER = ''mosquitto.moerman.online''"
definition MQTT_PORT :: nat where "MQTT_PORT = 1883"
definition MQTT_TOPIC :: string where "MQTT_TOPIC = ''control/gate''"
definition OTA_PORT :: nat where "OTA_PORT = 8266"
definition BAUDRATE :: nat where "BAUDRATE = 115200"
definition CONNECT_WAIT :: "32 word" where "CONNECT_WAIT = 30"
definition GATE_GPIO :: nat where "GATE_GPIO = 15"

text \<open>The two bytes of \<open>\r\n\<close> in the string literals of the source.\<close>

definition CRLF :: string where "CRLF = [CHR 0x0D, CHR 0x0A]"

subsection \<open>Events and the state of the device\<close>

type_synonym byte = char

datatype level = LOW | HIGH

text \<open>
  The values of \<open>WiFiEvent_t\<close> that \<open>NetworkEvent\<close> names, and \<open>OTHER_EVENT n\<close> for every
  other event code \<open>n\<close> of the enumeration.
\<close>

datatype WiFiEvent =
    ARDUINO_EVENT_ETH_START
  | ARDUINO_EVENT_ETH_CONNECTED
  | ARDUINO_EVENT_ETH_GOT_IP
  | ARDUINO_EVENT_ETH_DISCONNECTED
  | ARDUINO_EVENT_ETH_STOP
  | OTHER_EVENT nat

text \<open>What a \<open>Serial.print\<close> is given: a literal, or a value read from a library object.\<close>

datatype item =
    Str string
  | Chr byte
  | ByteVal byte
  | EventCode nat
  | EthMacAddress
  | EthLocalIP
  | EthLinkSpeed
  | MqttState

datatype event =
    SerialBegin nat
  | SerialPrint item
  | SerialPrintln item
  | SerialNewline
  | Delay nat
  | Yield
  | PinModeOutput nat
  | DigitalWrite nat level
  | EspRestart
  | WiFiOnEvent
  | EthBegin
  | EthSetHostname string
  | MqttSetClient
  | MqttSetServer string nat
  | MqttSetCallback
  | MqttConnected bool
  | MqttConnect string bool
  | MqttSubscribe string
  | MqttLoop bool
  | OtaSetPort nat
  | OtaSetHostname string
  | OtaOnStart
  | OtaOnEnd
  | OtaOnProgress
  | OtaOnError
  | OtaBegin
  | OtaHandle

text \<open>
  \<open>eth_connected\<close> is the global flag of the source. \<open>session_alive\<close> is what
  \<open>hMqttClient.connected()\<close> answers, \<open>callback_set\<close> whether a callback has been given to
  the client, \<open>full_duplex\<close> what \<open>ETH.fullDuplex()\<close> answers, and \<open>attempts\<close> counts the
  connect calls made so far: the broker's answer to a connect call is looked up under
  that number.
\<close>

record world =
  trace :: "event list"
  eth_connected :: bool
  full_duplex :: bool
  session_alive :: bool
  callback_set :: bool
  attempts :: nat

text \<open>
  Modelled from the spec: \<open>ESP.restart()\<close>, whose code is not in the repository, reboots
  the SoC and does not return. So a call either returns, or the program stops inside it
  at a restart.
\<close>

datatype stop = Restart

datatype 'a result = Returns 'a world | Halts stop world

definition emits :: "event list \<Rightarrow> world \<Rightarrow> world" where
  "emits es w = w\<lparr>trace := trace w @ es\<rparr>"

definition boot :: world where
  "boot = \<lparr>trace = [], eth_connected = False, full_duplex = True,
           session_alive = False, callback_set = False, attempts = 0\<rparr>"

fun final :: "'a result \<Rightarrow> world" where
  "final (Returns v w) = w"
| "final (Halts h w) = w"

fun stopped :: "'a result \<Rightarrow> stop option" where
  "stopped (Returns v w) = None"
| "stopped (Halts h w) = Some h"

fun returned :: "'a result \<Rightarrow> 'a option" where
  "returned (Returns v w) = Some v"
| "returned (Halts h w) = None"

text \<open>The events of a trace that are not console output.\<close>

fun is_console :: "event \<Rightarrow> bool" where
  "is_console (SerialPrint x) = True"
| "is_console (SerialPrintln x) = True"
| "is_console SerialNewline = True"
| "is_console e = False"

definition actions :: "event list \<Rightarrow> event list" where
  "actions es = filter (\<lambda>e. \<not> is_console e) es"

subsection \<open>NetworkEvent\<close>

definition NetworkEvent :: "WiFiEvent \<Rightarrow> world \<Rightarrow> world" where
  "NetworkEvent ev w =
     (case ev of
        ARDUINO_EVENT_ETH_START \<Rightarrow> emits [EthSetHostname MQTT_CLIENT_ID] w
      | ARDUINO_EVENT_ETH_CONNECTED \<Rightarrow> w
      | ARDUINO_EVENT_ETH_GOT_IP \<Rightarrow>
          (emits [SerialPrint (Str ''ETH MAC: ''), SerialPrint EthMacAddress,
                  SerialPrint (Str '', IPv4: ''), SerialPrint EthLocalIP,
                  SerialPrint (Str (if full_duplex w then '', FDX, '' else '', HDX, '')),
                  SerialPrint EthLinkSpeed, SerialPrintln (Str '' Mbps'')] w)
          \<lparr>eth_connected := True\<rparr>
      | ARDUINO_EVENT_ETH_DISCONNECTED \<Rightarrow>
          (emits [SerialPrintln (Str ''ETH disconnected'')] w)\<lparr>eth_connected := False\<rparr>
      | ARDUINO_EVENT_ETH_STOP \<Rightarrow>
          (emits [SerialPrintln (Str ''ETH stopped'')] w)\<lparr>eth_connected := False\<rparr>
      | OTHER_EVENT n \<Rightarrow>
          emits [SerialPrint (Str ''ETH unknown event: ''), SerialPrintln (EventCode n)] w)"

text \<open>
  The events are handled on the network stack's own task. \<open>deliver evs\<close> runs the
  observer on the events that arrive, in order, while the program is busy elsewhere.
\<close>

fun deliver :: "WiFiEvent list \<Rightarrow> world \<Rightarrow> world" where
  "deliver [] w = w"
| "deliver (ev # evs) w = deliver evs (NetworkEvent ev w)"

subsection \<open>SetupNetwork\<close>

text \<open>
  \<open>net 0\<close> holds the events that arrive between \<open>ETH.begin()\<close> and the first test of the
  flag, \<open>net k\<close> those that arrive during the \<open>k\<close>-th \<open>delay(1000)\<close>. The counter is the
  32-bit \<open>int nWait\<close>; \<open>ESP.restart()\<close> does not return, so the loop ends there.
\<close>

function SetupNetwork_wait ::
  "(nat \<Rightarrow> WiFiEvent list) \<Rightarrow> nat \<Rightarrow> 32 word \<Rightarrow> world \<Rightarrow> unit result" where
  "SetupNetwork_wait net tick nWait w =
     (if \<not> eth_connected w then
        (let w1 = deliver (net tick) (emits [Delay 1000] w);
             w2 = emits [SerialPrint (Str ''.'')] w1
         in if nWait - 1 = 0 then
              Halts Restart
                (emits [SerialPrintln (Str ''.''),
                        SerialPrintln (Str ''Connection Failed! Rebooting...''),
                        EspRestart] w2)
            else SetupNetwork_wait net (tick + 1) (nWait - 1) w2)
      else Returns () w)"
  by pat_completeness auto
termination
proof (relation "measure (\<lambda>(net, tick, nWait, w). unat (nWait - 1))")
  show "wf (measure (\<lambda>(net, tick, nWait, w). unat (nWait - 1)))"
    by simp
next
  fix net :: "nat \<Rightarrow> WiFiEvent list" and tick :: nat and nWait :: "32 word"
    and w w1 w2 :: world
  assume nz: "nWait - 1 \<noteq> 0"
  have dec: "unat (x - 1) < unat x" if "x \<noteq> 0" for x :: "32 word"
  proof -
    from that have "0 < unat x" by (simp add: unat_gt_0)
    moreover from that have "unat (x - 1) = unat x - 1" by (rule unat_minus_one)
    ultimately show ?thesis by linarith
  qed
  from dec [OF nz] show "((net, tick + 1, nWait - 1, w2), (net, tick, nWait, w))
      \<in> measure (\<lambda>(net, tick, nWait, w). unat (nWait - 1))"
    by simp
qed

definition SetupNetwork :: "(nat \<Rightarrow> WiFiEvent list) \<Rightarrow> world \<Rightarrow> unit result" where
  "SetupNetwork net w =
     (let w1 = emits [Delay 100, SerialPrint (Str ''Connecting network''),
                      WiFiOnEvent, EthBegin] w;
          w2 = deliver (net 0) w1
      in case SetupNetwork_wait net 1 CONNECT_WAIT w2 of
           Halts h w3 \<Rightarrow> Halts h w3
         | Returns u w3 \<Rightarrow> Returns () (emits [SerialPrintln (Str ''.'')] w3))"

subsection \<open>MqttCallback\<close>

text \<open>
  The pointer \<open>payload\<close> is the memory it points to: \<open>payload i\<close> is the byte at
  \<open>payload[i]\<close>. The bytes of the message are those below \<open>len\<close>, the \<open>length\<close> of the
  source; what lies from \<open>payload[len]\<close> on is whatever the client's buffer held before.
  The source indexes \<open>payload\<close> without looking at the length, and so does the
  definition. (A length is far below \<open>2 ^ 31\<close>, so the \<open>int i\<close> of the echo loop counts
  up to it.)
\<close>

definition MqttCallback :: "string \<Rightarrow> (nat \<Rightarrow> byte) \<Rightarrow> nat \<Rightarrow> world \<Rightarrow> unit result" where
  "MqttCallback topic payload len w =
     (let w1 = emits ([SerialPrint (Str ''New message arrived [''),
                       SerialPrint (Str topic), SerialPrint (Str ''] '')]
                      @ map (\<lambda>i. SerialPrint (Chr (payload i))) [0..<len]
                      @ [SerialNewline]) w;
          b = payload 0
      in if b = CHR ''0'' then
           Returns () (emits [SerialPrintln (Str ''Received command 0 - PORT LO''),
                              DigitalWrite GATE_GPIO LOW] w1)
         else if b = CHR ''1'' then
           Returns () (emits [SerialPrintln (Str ''Received command 1 - TOGGLE HI/LO''),
                              DigitalWrite GATE_GPIO HIGH, Delay 750,
                              DigitalWrite GATE_GPIO LOW] w1)
         else if b = CHR ''9'' then
           Halts Restart (emits [SerialPrintln (Str ''Received command 9 - RESET''),
                                 EspRestart] w1)
         else
           Returns () (emits [SerialPrint (Str ''Received unknown command: ''),
                              SerialPrintln (ByteVal b)] w1))"

text \<open>A memory that holds the bytes \<open>bs\<close> at the pointer, and zero bytes after them.\<close>

definition buffer :: "byte list \<Rightarrow> nat \<Rightarrow> byte" where
  "buffer bs i = (if i < length bs then bs ! i else CHR 0x00)"

subsection \<open>ConnectMqtt\<close>

text \<open>
  Modelled from the spec: \<open>PubSubClient::connect\<close>, whose code is not in the repository.
  \<open>broker n\<close> is the answer to the \<open>n\<close>-th connect call of the run; the session is
  alive from the moment a connect call succeeds.
\<close>

definition mqtt_connect :: "(nat \<Rightarrow> bool) \<Rightarrow> string \<Rightarrow> world \<Rightarrow> bool \<times> world" where
  "mqtt_connect broker cid w =
     (let ok = broker (attempts w)
      in (ok, (emits [MqttConnect cid ok] w)
               \<lparr>session_alive := ok, attempts := attempts w + 1\<rparr>))"

function ConnectMqtt_retry :: "(nat \<Rightarrow> bool) \<Rightarrow> nat \<Rightarrow> world \<Rightarrow> bool \<times> world" where
  "ConnectMqtt_retry broker nLoop w =
     (if nLoop < 5 then
        (let r = mqtt_connect broker MQTT_CLIENT_ID w
         in if fst r then
              (True, emits [SerialPrint (Str ''connected as ''),
                            SerialPrint (Str MQTT_CLIENT_ID)] (snd r))
            else
              ConnectMqtt_retry broker (nLoop + 1)
                (emits [SerialPrint (Str ''failed, rc=''), SerialPrint MqttState,
                        SerialPrintln (Str ''''), Yield, Delay 2000] (snd r)))
      else (False, w))"
  by pat_completeness auto
termination
  by (relation "measure (\<lambda>(broker, nLoop, w). 5 - nLoop)") auto

definition ConnectMqtt :: "(nat \<Rightarrow> bool) \<Rightarrow> world \<Rightarrow> bool \<times> world" where
  "ConnectMqtt broker w =
     (let w0 = emits [MqttConnected (session_alive w)] w
      in if \<not> session_alive w then
           ConnectMqtt_retry broker 0 (emits [SerialPrint (Str ''Setup MQTT...'')] w0)
         else (True, emits [SerialPrintln (Str ''MQTT connecting alive'')] w0))"

subsection \<open>SetupMQTT, SetupOTA and setup\<close>

definition SetupMQTT :: "(nat \<Rightarrow> bool) \<Rightarrow> world \<Rightarrow> world" where
  "SetupMQTT broker w =
     (let w1 = emits [MqttSetClient, MqttSetServer MQTT_SERVER MQTT_PORT] w;
          w2 = snd (ConnectMqtt broker w1);
          w3 = (emits [MqttSetCallback] w2)\<lparr>callback_set := True\<rparr>
      in emits [MqttSubscribe MQTT_TOPIC,
                SerialPrint (Str ''Subscribed to topic ''),
                SerialPrintln (Str MQTT_TOPIC)] w3)"

definition SetupOTA :: "world \<Rightarrow> world" where
  "SetupOTA w =
     emits [OtaSetPort OTA_PORT, OtaSetHostname MQTT_CLIENT_ID,
            OtaOnStart, OtaOnEnd, OtaOnProgress, OtaOnError, OtaBegin] w"

definition arduino_setup ::
  "(nat \<Rightarrow> WiFiEvent list) \<Rightarrow> (nat \<Rightarrow> bool) \<Rightarrow> world \<Rightarrow> unit result" where
  "arduino_setup net broker w =
     (let w1 = emits [SerialBegin BAUDRATE,
                      SerialPrint (Str (CRLF @ '' '' @ CRLF @ ''Booting GateKeeper, version '')),
                      SerialPrintln (Str APP_VERSION)] w
      in case SetupNetwork net w1 of
           Halts h w2 \<Rightarrow> Halts h w2
         | Returns u w2 \<Rightarrow>
             Returns ()
               (emits [PinModeOutput GATE_GPIO, SerialPrintln (Str (CRLF @ ''READY'' @ CRLF)),
                       Delay 1500]
                  (SetupOTA (SetupMQTT broker w2))))"

subsection \<open>loop\<close>

text \<open>
  Modelled from the spec: \<open>PubSubClient::loop\<close>, the poll of the MQTT client, whose code
  is not in the repository. On a dead session it answers false. On a live one it either
  finds nothing, or hands one arrived message (topic, pointer and length) to the
  installed callback, or finds the connection lost (and answers false).
\<close>

datatype poll = Quiet | Arrived string "nat \<Rightarrow> byte" nat | Dropped

definition mqtt_loop :: "poll \<Rightarrow> world \<Rightarrow> bool result" where
  "mqtt_loop p w =
     (if \<not> session_alive w then Returns False (emits [MqttLoop False] w)
      else case p of
             Quiet \<Rightarrow> Returns True (emits [MqttLoop True] w)
           | Dropped \<Rightarrow> Returns False ((emits [MqttLoop False] w)\<lparr>session_alive := False\<rparr>)
           | Arrived topic payload len \<Rightarrow>
               if callback_set w then
                 (case MqttCallback topic payload len w of
                    Halts h w1 \<Rightarrow> Halts h w1
                  | Returns u w1 \<Rightarrow> Returns True (emits [MqttLoop True] w1))
               else Returns True (emits [MqttLoop True] w))"

definition loop :: "(nat \<Rightarrow> bool) \<Rightarrow> poll \<Rightarrow> world \<Rightarrow> unit result" where
  "loop broker p w =
     (case mqtt_loop p w of
        Halts h w1 \<Rightarrow> Halts h w1
      | Returns alive w1 \<Rightarrow>
          (let w2 = (if \<not> alive then snd (ConnectMqtt broker w1) else w1)
           in Returns () (emits [OtaHandle] w2)))"

text \<open>The passes of the main loop, one per poll, until the program stops.\<close>

fun loops :: "(nat \<Rightarrow> bool) \<Rightarrow> poll list \<Rightarrow> world \<Rightarrow> unit result" where
  "loops broker [] w = Returns () w"
| "loops broker (p # ps) w =
     (case loop broker p w of
        Halts h w1 \<Rightarrow> Halts h w1
      | Returns u w1 \<Rightarrow> loops broker ps w1)"

subsection \<open>Reading traces\<close>

text \<open>
  The events of one failed and of one successful pass through the retry loop of
  \<open>ConnectMqtt\<close>, and the tests that pick a kind of event out of a trace.
\<close>

definition attempt_failed :: "event list" where
  "attempt_failed =
     [MqttConnect MQTT_CLIENT_ID False, SerialPrint (Str ''failed, rc=''),
      SerialPrint MqttState, SerialPrintln (Str ''''), Yield, Delay 2000]"

definition attempt_succeeded :: "event list" where
  "attempt_succeeded =
     [MqttConnect MQTT_CLIENT_ID True, SerialPrint (Str ''connected as ''),
      SerialPrint (Str MQTT_CLIENT_ID)]"

text \<open>
  What \<open>MqttCallback\<close> adds to the trace: the announcement with the echo of the
  message, and then what it does on the byte it dispatches on.
\<close>

definition arrival :: "string \<Rightarrow> (nat \<Rightarrow> byte) \<Rightarrow> nat \<Rightarrow> event list" where
  "arrival topic payload len =
     [SerialPrint (Str ''New message arrived [''), SerialPrint (Str topic),
      SerialPrint (Str ''] '')]
     @ map (\<lambda>i. SerialPrint (Chr (payload i))) [0..<len]
     @ [SerialNewline]"

definition reaction :: "byte \<Rightarrow> event list" where
  "reaction b =
     (if b = CHR ''0'' then
        [SerialPrintln (Str ''Received command 0 - PORT LO''), DigitalWrite GATE_GPIO LOW]
      else if b = CHR ''1'' then
        [SerialPrintln (Str ''Received command 1 - TOGGLE HI/LO''),
         DigitalWrite GATE_GPIO HIGH, Delay 750, DigitalWrite GATE_GPIO LOW]
      else if b = CHR ''9'' then
        [SerialPrintln (Str ''Received command 9 - RESET''), EspRestart]
      else
        [SerialPrint (Str ''Received unknown command: ''), SerialPrintln (ByteVal b)])"

text \<open>A poll that hands the callback a message whose first byte is \<open>'9'\<close>.\<close>

fun restart_message :: "poll \<Rightarrow> bool" where
  "restart_message (Arrived topic payload len) = (payload 0 = CHR ''9'')"
| "restart_message p = False"

fun is_connect :: "event \<Rightarrow> bool" where
  "is_connect (MqttConnect cid ok) = True"
| "is_connect e = False"

fun is_subscribe :: "event \<Rightarrow> bool" where
  "is_subscribe (MqttSubscribe t) = True"
| "is_subscribe e = False"

fun is_connected_query :: "event \<Rightarrow> bool" where
  "is_connected_query (MqttConnected b) = True"
| "is_connected_query e = False"

fun is_delay :: "event \<Rightarrow> bool" where
  "is_delay (Delay ms) = True"
| "is_delay e = False"

fun is_ota_handle :: "event \<Rightarrow> bool" where
  "is_ota_handle OtaHandle = True"
| "is_ota_handle e = False"

fun is_restart :: "event \<Rightarrow> bool" where
  "is_restart EspRestart = True"
| "is_restart e = False"

text \<open>
  One turn of the waiting loop of \<open>SetupNetwork\<close> up to the test of the counter: the
  delay, the events the observer handles meanwhile, and the dot on the console.
\<close>

definition one_tick :: "WiFiEvent list \<Rightarrow> world \<Rightarrow> world" where
  "one_tick evs w = emits [SerialPrint (Str ''.'')] (deliver evs (emits [Delay 1000] w))"

text \<open>
  A link that starts at once, is plugged in during the first second and gets its address
  during the 30th second of the wait.
\<close>

definition late_link :: "nat \<Rightarrow> WiFiEvent list" where
  "late_link k =
     (if k = 0 then [ARDUINO_EVENT_ETH_START]
      else if k = 1 then [ARDUINO_EVENT_ETH_CONNECTED]
      else if k = 30 then [ARDUINO_EVENT_ETH_GOT_IP]
      else [])"

text \<open>\<open>n\<close> calls of \<open>ConnectMqtt\<close> in a row, the results thrown away.\<close>

definition ConnectMqtt_times :: "(nat \<Rightarrow> bool) \<Rightarrow> nat \<Rightarrow> world \<Rightarrow> world" where
  "ConnectMqtt_times broker n = (\<lambda>w. snd (ConnectMqtt broker w)) ^^ n"

text \<open>A broker that refuses every connect call of the run but the third.\<close>

definition flaky :: "nat \<Rightarrow> bool" where
  "flaky n = (n = 2)"

section \<open>Properties\<close>

subsection \<open>Traces\<close>

declare SetupNetwork_wait.simps [simp del]
declare ConnectMqtt_retry.simps [simp del]

lemma trace_emits: "trace (emits es w) = trace w @ es"
  by (simp add: emits_def)

lemma fields_emits:
  "eth_connected (emits es w) = eth_connected w"
  "full_duplex (emits es w) = full_duplex w"
  "session_alive (emits es w) = session_alive w"
  "callback_set (emits es w) = callback_set w"
  "attempts (emits es w) = attempts w"
  by (simp_all add: emits_def)

lemma actions_append: "actions (xs @ ys) = actions xs @ actions ys"
  by (simp add: actions_def)

lemma actions_arrival: "actions (arrival topic payload len) = []"
proof -
  have "filter (\<lambda>e. \<not> is_console e) (map (\<lambda>i. SerialPrint (Chr (payload i))) xs) = []" for xs
    by (induction xs) simp_all
  then show ?thesis by (simp add: arrival_def actions_def)
qed

lemma actions_reaction:
  "actions (reaction b) =
     (if b = CHR ''0'' then [DigitalWrite GATE_GPIO LOW]
      else if b = CHR ''1'' then
        [DigitalWrite GATE_GPIO HIGH, Delay 750, DigitalWrite GATE_GPIO LOW]
      else if b = CHR ''9'' then [EspRestart]
      else [])"
  by (simp add: reaction_def actions_def)

lemma reaction_inj: "reaction a = reaction b \<Longrightarrow> a = b"
  by (auto simp add: reaction_def split: if_splits)

lemma arrival_inj:
  assumes "arrival topic p1 len = arrival topic p2 len" and "i < len"
  shows "p1 i = p2 i"
proof -
  from assms(1) have "map (\<lambda>i. SerialPrint (Chr (p1 i))) [0..<len] =
      map (\<lambda>i. SerialPrint (Chr (p2 i))) [0..<len]"
    by (simp add: arrival_def)
  then have "\<forall>i\<in>set [0..<len]. SerialPrint (Chr (p1 i)) = SerialPrint (Chr (p2 i))"
    by (simp only: map_eq_conv)
  with assms(2) show ?thesis by simp
qed

lemma arrival_cong:
  "\<forall>i<len. p1 i = p2 i \<Longrightarrow> arrival topic p1 len = arrival topic p2 len"
  by (simp add: arrival_def)

lemma length_arrival: "length (arrival topic payload len) = len + 4"
  by (simp add: arrival_def)

subsection \<open>The command interpreter\<close>

lemma MqttCallback_result:
  "MqttCallback topic payload len w =
     (if payload 0 = CHR ''9''
      then Halts Restart (emits (arrival topic payload len @ reaction (payload 0)) w)
      else Returns () (emits (arrival topic payload len @ reaction (payload 0)) w))"
  by (simp add: MqttCallback_def Let_def arrival_def reaction_def emits_def)

lemma MqttCallback_trace:
  "trace (final (MqttCallback topic payload len w)) =
     trace w @ arrival topic payload len @ reaction (payload 0)"
  by (simp add: MqttCallback_result trace_emits)

lemma MqttCallback_actions:
  "actions (trace (final (MqttCallback topic payload len w))) =
     actions (trace w) @
       (if payload 0 = CHR ''0'' then [DigitalWrite GATE_GPIO LOW]
        else if payload 0 = CHR ''1'' then
          [DigitalWrite GATE_GPIO HIGH, Delay 750, DigitalWrite GATE_GPIO LOW]
        else if payload 0 = CHR ''9'' then [EspRestart]
        else [])"
  by (simp only: MqttCallback_trace actions_append actions_arrival actions_reaction append_Nil)

lemma MqttCallback_stopped:
  "stopped (MqttCallback topic payload len w) =
     (if payload 0 = CHR ''9'' then Some Restart else None)"
  by (simp add: MqttCallback_result)

text \<open>
  C1. What \<open>MqttCallback\<close> does besides writing to the console depends on the first
  payload byte alone: for \<open>'0'\<close> one write of LOW to the gate line; for \<open>'1'\<close> one
  write of HIGH, a delay of 750 ms and one write of LOW, without restart; for \<open>'9'\<close>
  the restart; for any other first byte nothing at all. This holds for every memory
  behind the pointer and every length, so for every message of one byte or more.
\<close>

theorem MqttCallback_decodes_first_byte:
  "actions (trace (final (MqttCallback topic payload len w))) =
     actions (trace w) @
       (if payload 0 = CHR ''0'' then [DigitalWrite GATE_GPIO LOW]
        else if payload 0 = CHR ''1'' then
          [DigitalWrite GATE_GPIO HIGH, Delay 750, DigitalWrite GATE_GPIO LOW]
        else if payload 0 = CHR ''9'' then [EspRestart]
        else [])
   \<and> stopped (MqttCallback topic payload len w) =
       (if payload 0 = CHR ''9'' then Some Restart else None)"
  by (simp only: MqttCallback_actions MqttCallback_stopped simp_thms)

theorem MqttCallback_decodes_first_byte_witness:
  "actions (trace (final (MqttCallback ''control/gate'' (buffer ''1'') 1 boot))) =
     [DigitalWrite 15 HIGH, Delay 750, DigitalWrite 15 LOW]
   \<and> stopped (MqttCallback ''control/gate'' (buffer ''1'') 1 boot) = None
   \<and> actions (trace (final (MqttCallback ''control/gate'' (buffer ''0'') 1 boot))) =
       [DigitalWrite 15 LOW]
   \<and> actions (trace (final (MqttCallback ''control/gate'' (buffer ''9'') 1 boot))) = [EspRestart]
   \<and> stopped (MqttCallback ''control/gate'' (buffer ''9'') 1 boot) = Some Restart
   \<and> actions (trace (final (MqttCallback ''control/gate'' (buffer ''open'') 4 boot))) = []"
  using MqttCallback_decodes_first_byte [of "''control/gate''" "buffer ''1''" 1 boot]
    MqttCallback_decodes_first_byte [of "''control/gate''" "buffer ''0''" 1 boot]
    MqttCallback_decodes_first_byte [of "''control/gate''" "buffer ''9''" 1 boot]
    MqttCallback_decodes_first_byte [of "''control/gate''" "buffer ''open''" 4 boot]
  by (simp add: boot_def actions_def GATE_GPIO_def buffer_def)

text \<open>
  C5. \<open>MqttCallback\<close> dispatches on the byte at \<open>payload[0]\<close> whatever the length. Two
  calls that differ in the memory behind the pointer alone give the same result exactly
  when the memories agree at every index below \<open>max len 1\<close>: with one byte or more the
  callback reads the bytes of the message and nothing else; with length 0 it reads the
  byte at index 0, which is outside the message, and acts on it as on a command.
\<close>

theorem MqttCallback_unguarded_first_byte:
  "(MqttCallback topic p1 len w = MqttCallback topic p2 len w) =
     (\<forall>i < max len 1. p1 i = p2 i)
   \<and> actions (trace (final (MqttCallback topic p1 0 w))) =
       actions (trace w) @
         (if p1 0 = CHR ''0'' then [DigitalWrite GATE_GPIO LOW]
          else if p1 0 = CHR ''1'' then
            [DigitalWrite GATE_GPIO HIGH, Delay 750, DigitalWrite GATE_GPIO LOW]
          else if p1 0 = CHR ''9'' then [EspRestart]
          else [])"
proof -
  have "\<forall>i < max len 1. p1 i = p2 i"
    if eq: "MqttCallback topic p1 len w = MqttCallback topic p2 len w"
  proof -
    from eq have "trace (final (MqttCallback topic p1 len w)) =
        trace (final (MqttCallback topic p2 len w))"
      by simp
    then have "arrival topic p1 len @ reaction (p1 0) = arrival topic p2 len @ reaction (p2 0)"
      by (simp only: MqttCallback_trace same_append_eq)
    moreover have "length (arrival topic p1 len) = length (arrival topic p2 len)"
      by (simp only: length_arrival)
    ultimately have a: "arrival topic p1 len = arrival topic p2 len"
      and r: "reaction (p1 0) = reaction (p2 0)"
      by simp_all
    from r have first: "p1 0 = p2 0" by (rule reaction_inj)
    show ?thesis
    proof (intro allI impI)
      fix i assume "i < max len 1"
      then have "i < len \<or> i = 0" by auto
      then show "p1 i = p2 i"
        using arrival_inj [OF a] first by blast
    qed
  qed
  moreover have "MqttCallback topic p1 len w = MqttCallback topic p2 len w"
    if same: "\<forall>i < max len 1. p1 i = p2 i"
  proof -
    from same have first: "p1 0 = p2 0" by simp
    from same have "\<forall>i<len. p1 i = p2 i" by simp
    then have "arrival topic p1 len = arrival topic p2 len" by (rule arrival_cong)
    with first show ?thesis by (simp only: MqttCallback_result)
  qed
  ultimately have "(MqttCallback topic p1 len w = MqttCallback topic p2 len w) =
     (\<forall>i < max len 1. p1 i = p2 i)"
    by blast
  then show ?thesis
    by (simp only: MqttCallback_actions simp_thms)
qed

theorem MqttCallback_unguarded_first_byte_witness:
  "MqttCallback ''control/gate'' (buffer ''1'') 0 boot \<noteq>
     MqttCallback ''control/gate'' (buffer ''0'') 0 boot
   \<and> actions (trace (final (MqttCallback ''control/gate'' (buffer ''1'') 0 boot))) =
       [DigitalWrite 15 HIGH, Delay 750, DigitalWrite 15 LOW]
   \<and> MqttCallback ''control/gate'' (buffer ''1x'') 1 boot =
       MqttCallback ''control/gate'' (buffer ''1y'') 1 boot"
proof -
  note t0 = MqttCallback_unguarded_first_byte
    [of "''control/gate''" "buffer ''1''" 0 boot "buffer ''0''"]
  note t1 = MqttCallback_unguarded_first_byte
    [of "''control/gate''" "buffer ''1x''" 1 boot "buffer ''1y''"]
  from t0 have a: "MqttCallback ''control/gate'' (buffer ''1'') 0 boot \<noteq>
      MqttCallback ''control/gate'' (buffer ''0'') 0 boot"
    by (simp add: buffer_def)
  from t0 have "actions (trace (final (MqttCallback ''control/gate'' (buffer ''1'') 0 boot))) =
       actions (trace boot) @
         (if buffer ''1'' 0 = CHR ''0'' then [DigitalWrite GATE_GPIO LOW]
          else if buffer ''1'' 0 = CHR ''1'' then
            [DigitalWrite GATE_GPIO HIGH, Delay 750, DigitalWrite GATE_GPIO LOW]
          else if buffer ''1'' 0 = CHR ''9'' then [EspRestart]
          else [])"
    by (rule conjunct2)
  then have b: "actions (trace (final (MqttCallback ''control/gate'' (buffer ''1'') 0 boot))) =
       [DigitalWrite 15 HIGH, Delay 750, DigitalWrite 15 LOW]"
    by (simp add: buffer_def boot_def actions_def GATE_GPIO_def)
  from t1 have c: "MqttCallback ''control/gate'' (buffer ''1x'') 1 boot =
      MqttCallback ''control/gate'' (buffer ''1y'') 1 boot"
    by (simp add: buffer_def)
  from a b c show ?thesis by (intro conjI)
qed

text \<open>
  C7, as stated: two payloads that start with \<open>'9'\<close> give the same observable
  behaviour. The callback prints every payload byte to the console first, so the traces
  of \<open>9x\<close> and \<open>9y\<close> differ.
\<close>

theorem MqttCallback_echoes_tail_counterexample:
  "trace (final (MqttCallback ''control/gate'' (buffer ''9x'') 2 boot)) \<noteq>
   trace (final (MqttCallback ''control/gate'' (buffer ''9y'') 2 boot))"
proof
  assume "trace (final (MqttCallback ''control/gate'' (buffer ''9x'') 2 boot)) =
    trace (final (MqttCallback ''control/gate'' (buffer ''9y'') 2 boot))"
  then have "arrival ''control/gate'' (buffer ''9x'') 2 = arrival ''control/gate'' (buffer ''9y'') 2"
    by (simp add: MqttCallback_trace buffer_def)
  then have "buffer ''9x'' 1 = buffer ''9y'' 1"
    by (rule arrival_inj) simp
  then show False by (simp add: buffer_def)
qed

text \<open>
  C7, amended. On a payload that starts with \<open>'9'\<close> the callback echoes the payload to
  the console, byte by byte, and restarts; the bytes after the first appear in that echo
  and nowhere else, so two such payloads give the same effects outside the console: the
  restart and nothing more.
\<close>

theorem MqttCallback_restart_ignores_tail:
  assumes "payload 0 = CHR ''9''" and "payload' 0 = CHR ''9''"
  shows "MqttCallback topic payload len w =
     Halts Restart
       (emits ([SerialPrint (Str ''New message arrived [''), SerialPrint (Str topic),
                SerialPrint (Str ''] '')]
               @ map (\<lambda>i. SerialPrint (Chr (payload i))) [0..<len]
               @ [SerialNewline, SerialPrintln (Str ''Received command 9 - RESET''),
                  EspRestart]) w)
   \<and> actions (trace (final (MqttCallback topic payload len w))) =
       actions (trace w) @ [EspRestart]
   \<and> actions (trace (final (MqttCallback topic payload len w))) =
       actions (trace (final (MqttCallback topic payload' len' w)))"
  using assms
  by (simp add: MqttCallback_actions) (simp add: MqttCallback_def Let_def emits_def)

theorem MqttCallback_restart_ignores_tail_witness:
  "stopped (MqttCallback ''control/gate'' (buffer ''9xyz'') 4 boot) = Some Restart
   \<and> actions (trace (final (MqttCallback ''control/gate'' (buffer ''9xyz'') 4 boot))) =
       actions (trace (final (MqttCallback ''control/gate'' (buffer ''9abc'') 4 boot)))"
proof -
  have x: "buffer ''9xyz'' 0 = CHR ''9''" and a: "buffer ''9abc'' 0 = CHR ''9''"
    by (simp_all add: buffer_def)
  note t = MqttCallback_restart_ignores_tail
    [of "buffer ''9xyz''" "buffer ''9abc''" "''control/gate''" 4 boot 4, OF x a]
  from t have "stopped (MqttCallback ''control/gate'' (buffer ''9xyz'') 4 boot) = Some Restart"
    by simp
  moreover from t
  have "actions (trace (final (MqttCallback ''control/gate'' (buffer ''9xyz'') 4 boot))) =
       actions (trace (final (MqttCallback ''control/gate'' (buffer ''9abc'') 4 boot)))"
    by blast
  ultimately show ?thesis by blast
qed

subsection \<open>The network event observer\<close>

text \<open>
  C8. On the start event \<open>NetworkEvent\<close> sets the hostname to the device's identity
  string; the link flag becomes true on address acquisition, false on disconnect and on
  stop, and no other event changes it.
\<close>

theorem NetworkEvent_transitions:
  "trace (NetworkEvent ARDUINO_EVENT_ETH_START w) = trace w @ [EthSetHostname ''gatekeeper'']
   \<and> eth_connected (NetworkEvent ev w) =
       (if ev = ARDUINO_EVENT_ETH_GOT_IP then True
        else if ev = ARDUINO_EVENT_ETH_DISCONNECTED \<or> ev = ARDUINO_EVENT_ETH_STOP then False
        else eth_connected w)"
  by (cases ev) (simp_all add: NetworkEvent_def trace_emits fields_emits MQTT_CLIENT_ID_def)

theorem NetworkEvent_transitions_witness:
  "trace (NetworkEvent ARDUINO_EVENT_ETH_START boot) = [EthSetHostname ''gatekeeper'']
   \<and> eth_connected (NetworkEvent ARDUINO_EVENT_ETH_GOT_IP boot)
   \<and> \<not> eth_connected (NetworkEvent ARDUINO_EVENT_ETH_STOP (NetworkEvent ARDUINO_EVENT_ETH_GOT_IP boot))
   \<and> \<not> eth_connected (NetworkEvent ARDUINO_EVENT_ETH_CONNECTED boot)"
  using NetworkEvent_transitions [of boot ARDUINO_EVENT_ETH_GOT_IP]
    NetworkEvent_transitions [of "NetworkEvent ARDUINO_EVENT_ETH_GOT_IP boot" ARDUINO_EVENT_ETH_STOP]
    NetworkEvent_transitions [of boot ARDUINO_EVENT_ETH_CONNECTED]
  by (simp add: boot_def)

subsection \<open>The session supervisor\<close>

lemma emits_emits: "emits bs (emits as w) = emits (as @ bs) w"
  by (simp add: emits_def)

lemma retry_all_fail:
  "nLoop + n = 5 \<Longrightarrow> \<not> session_alive w \<Longrightarrow> \<forall>j<n. \<not> broker (attempts w + j) \<Longrightarrow>
   ConnectMqtt_retry broker nLoop w =
     (False, (emits (concat (replicate n attempt_failed)) w)\<lparr>attempts := attempts w + n\<rparr>)"
proof (induction n arbitrary: nLoop w)
  case 0
  then show ?case
    by (subst ConnectMqtt_retry.simps) (simp add: emits_def)
next
  case (Suc n)
  let ?w' = "emits [SerialPrint (Str ''failed, rc=''), SerialPrint MqttState,
                    SerialPrintln (Str ''''), Yield, Delay 2000]
               (snd (mqtt_connect broker MQTT_CLIENT_ID w))"
  from Suc.prems have lt: "nLoop < 5" and nb: "\<not> broker (attempts w)"
    by auto
  have at: "attempts ?w' = attempts w + 1" and dead: "\<not> session_alive ?w'"
    using nb by (simp_all add: mqtt_connect_def fields_emits Let_def)
  have rest: "\<forall>j<n. \<not> broker (attempts ?w' + j)"
    using Suc.prems(3) at by auto
  have step: "ConnectMqtt_retry broker nLoop w = ConnectMqtt_retry broker (nLoop + 1) ?w'"
    using lt nb by (subst ConnectMqtt_retry.simps) (simp add: mqtt_connect_def Let_def)
  have "ConnectMqtt_retry broker (nLoop + 1) ?w' =
     (False, (emits (concat (replicate n attempt_failed)) ?w')\<lparr>attempts := attempts ?w' + n\<rparr>)"
    using Suc.prems(1) dead rest by (intro Suc.IH) simp_all
  also have "(emits (concat (replicate n attempt_failed)) ?w')\<lparr>attempts := attempts ?w' + n\<rparr> =
     (emits (concat (replicate (Suc n) attempt_failed)) w)\<lparr>attempts := attempts w + Suc n\<rparr>"
    using nb Suc.prems(2)
    by (simp add: mqtt_connect_def Let_def emits_def attempt_failed_def)
  finally show ?case using step by simp
qed

lemma retry_success:
  "nLoop + k < 5 \<Longrightarrow> \<not> session_alive w \<Longrightarrow> \<forall>j<k. \<not> broker (attempts w + j) \<Longrightarrow>
   broker (attempts w + k) \<Longrightarrow>
   ConnectMqtt_retry broker nLoop w =
     (True, (emits (concat (replicate k attempt_failed) @ attempt_succeeded) w)
              \<lparr>session_alive := True, attempts := attempts w + k + 1\<rparr>)"
proof (induction k arbitrary: nLoop w)
  case 0
  then show ?case
    by (subst ConnectMqtt_retry.simps)
       (simp add: mqtt_connect_def Let_def emits_def attempt_succeeded_def)
next
  case (Suc k)
  let ?w' = "emits [SerialPrint (Str ''failed, rc=''), SerialPrint MqttState,
                    SerialPrintln (Str ''''), Yield, Delay 2000]
               (snd (mqtt_connect broker MQTT_CLIENT_ID w))"
  from Suc.prems have lt: "nLoop < 5" and nb: "\<not> broker (attempts w)"
    by auto
  have at: "attempts ?w' = attempts w + 1" and dead: "\<not> session_alive ?w'"
    using nb by (simp_all add: mqtt_connect_def fields_emits Let_def)
  have rest: "\<forall>j<k. \<not> broker (attempts ?w' + j)"
    using Suc.prems(3) at by auto
  have ok: "broker (attempts ?w' + k)"
    using Suc.prems(4) at by simp
  have step: "ConnectMqtt_retry broker nLoop w = ConnectMqtt_retry broker (nLoop + 1) ?w'"
    using lt nb by (subst ConnectMqtt_retry.simps) (simp add: mqtt_connect_def Let_def)
  have "ConnectMqtt_retry broker (nLoop + 1) ?w' =
     (True, (emits (concat (replicate k attempt_failed) @ attempt_succeeded) ?w')
              \<lparr>session_alive := True, attempts := attempts ?w' + k + 1\<rparr>)"
    using Suc.prems(1) dead rest ok by (intro Suc.IH) simp_all
  also have "(emits (concat (replicate k attempt_failed) @ attempt_succeeded) ?w')
              \<lparr>session_alive := True, attempts := attempts ?w' + k + 1\<rparr> =
     (emits (concat (replicate (Suc k) attempt_failed) @ attempt_succeeded) w)
              \<lparr>session_alive := True, attempts := attempts w + Suc k + 1\<rparr>"
    using nb
    by (simp add: mqtt_connect_def Let_def emits_def attempt_failed_def)
  finally show ?case using step by simp
qed

lemma ConnectMqtt_dead:
  "\<not> session_alive w \<Longrightarrow>
   ConnectMqtt broker w =
     ConnectMqtt_retry broker 0
       (emits [MqttConnected False, SerialPrint (Str ''Setup MQTT...'')] w)"
  by (simp add: ConnectMqtt_def Let_def emits_emits)

lemma ConnectMqtt_all_fail:
  assumes "\<not> session_alive w" and "\<forall>j<5. \<not> broker (attempts w + j)"
  shows "ConnectMqtt broker w =
     (False, (emits ([MqttConnected False, SerialPrint (Str ''Setup MQTT...'')]
                     @ concat (replicate 5 attempt_failed)) w)\<lparr>attempts := attempts w + 5\<rparr>)"
proof -
  let ?w0 = "emits [MqttConnected False, SerialPrint (Str ''Setup MQTT...'')] w"
  have "ConnectMqtt_retry broker 0 ?w0 =
     (False, (emits (concat (replicate 5 attempt_failed)) ?w0)\<lparr>attempts := attempts ?w0 + 5\<rparr>)"
    using assms by (intro retry_all_fail) (simp_all add: fields_emits)
  then show ?thesis
    using assms(1) by (simp add: ConnectMqtt_dead emits_emits fields_emits)
qed

lemma ConnectMqtt_first_success:
  assumes "\<not> session_alive w" and "k < 5" and "\<forall>j<k. \<not> broker (attempts w + j)"
    and "broker (attempts w + k)"
  shows "ConnectMqtt broker w =
     (True, (emits ([MqttConnected False, SerialPrint (Str ''Setup MQTT...'')]
                     @ concat (replicate k attempt_failed) @ attempt_succeeded) w)
              \<lparr>session_alive := True, attempts := attempts w + k + 1\<rparr>)"
proof -
  let ?w0 = "emits [MqttConnected False, SerialPrint (Str ''Setup MQTT...'')] w"
  have "ConnectMqtt_retry broker 0 ?w0 =
     (True, (emits (concat (replicate k attempt_failed) @ attempt_succeeded) ?w0)
              \<lparr>session_alive := True, attempts := attempts ?w0 + k + 1\<rparr>)"
    using assms by (intro retry_success) (simp_all add: fields_emits)
  then show ?thesis
    using assms(1) by (simp add: ConnectMqtt_dead emits_emits fields_emits)
qed


lemma connects_failed: "length (filter is_connect (concat (replicate n attempt_failed))) = n"
  by (induction n) (simp_all add: attempt_failed_def)

lemma first_answer:
  assumes "\<exists>k<5. broker (a + k)"
  obtains k :: nat where "k < 5" and "\<forall>j<k. \<not> broker (a + j)" and "broker (a + k)"
proof -
  define k where "k = (LEAST k. k < 5 \<and> broker (a + k))"
  from assms obtain k0 where k0: "k0 < 5 \<and> broker (a + k0)" by blast
  have "k < 5 \<and> broker (a + k)"
    unfolding k_def using k0 by (rule LeastI)
  moreover have "\<not> broker (a + j)" if "j < k" for j
  proof
    assume "broker (a + j)"
    moreover from that \<open>k < 5 \<and> broker (a + k)\<close> have "j < 5" by simp
    ultimately have "k \<le> j"
      unfolding k_def by (intro Least_le) simp
    with that show False by simp
  qed
  ultimately show thesis using that by blast
qed

text \<open>
  C3. On a dead session \<open>ConnectMqtt\<close> makes at most five connect calls. If all five
  fail it returns false, each failure followed by a pause of 2 s; if the call number
  \<open>k + 1\<close> is the first to succeed it returns true at once, after \<open>k\<close> failures and
  their pauses, and makes no further call.
\<close>

theorem ConnectMqtt_bounded_retry:
  assumes "\<not> session_alive w"
  shows "fst (ConnectMqtt broker w) = (\<exists>k<5. broker (attempts w + k))
   \<and> length (filter is_connect (trace (snd (ConnectMqtt broker w))))
       \<le> length (filter is_connect (trace w)) + 5
   \<and> ((\<forall>j<5. \<not> broker (attempts w + j)) \<longrightarrow>
        ConnectMqtt broker w =
          (False, (emits ([MqttConnected False, SerialPrint (Str ''Setup MQTT...'')]
                          @ concat (replicate 5 attempt_failed)) w)
                    \<lparr>attempts := attempts w + 5\<rparr>))
   \<and> (\<forall>k<5. (\<forall>j<k. \<not> broker (attempts w + j)) \<and> broker (attempts w + k) \<longrightarrow>
        ConnectMqtt broker w =
          (True, (emits ([MqttConnected False, SerialPrint (Str ''Setup MQTT...'')]
                         @ concat (replicate k attempt_failed) @ attempt_succeeded) w)
                   \<lparr>session_alive := True, attempts := attempts w + k + 1\<rparr>))"
proof (cases "\<exists>k<5. broker (attempts w + k)")
  case False
  then have none: "\<forall>j<5. \<not> broker (attempts w + j)" by blast
  note eq = ConnectMqtt_all_fail [OF assms none]
  have "length (filter is_connect (trace (snd (ConnectMqtt broker w))))
      = length (filter is_connect (trace w)) + 5"
    by (simp add: eq trace_emits connects_failed)
  with False none eq show ?thesis by auto
next
  case True
  then obtain k where k: "k < 5" "\<forall>j<k. \<not> broker (attempts w + j)" "broker (attempts w + k)"
    by (rule first_answer)
  note eq = ConnectMqtt_first_success [OF assms k]
  have "length (filter is_connect (trace (snd (ConnectMqtt broker w))))
      = length (filter is_connect (trace w)) + k + 1"
    by (simp add: eq trace_emits connects_failed attempt_succeeded_def)
  with k(1) have bound: "length (filter is_connect (trace (snd (ConnectMqtt broker w))))
      \<le> length (filter is_connect (trace w)) + 5"
    by simp
  have res: "fst (ConnectMqtt broker w)"
    by (simp add: eq)
  have succ: "\<forall>k<5. (\<forall>j<k. \<not> broker (attempts w + j)) \<and> broker (attempts w + k) \<longrightarrow>
        ConnectMqtt broker w =
          (True, (emits ([MqttConnected False, SerialPrint (Str ''Setup MQTT...'')]
                         @ concat (replicate k attempt_failed) @ attempt_succeeded) w)
                   \<lparr>session_alive := True, attempts := attempts w + k + 1\<rparr>)"
    using ConnectMqtt_first_success [OF assms] by blast
  from True res bound succ show ?thesis by blast
qed

theorem ConnectMqtt_bounded_retry_witness:
  "\<not> session_alive boot
   \<and> \<not> fst (ConnectMqtt (\<lambda>n. False) boot)
   \<and> trace (snd (ConnectMqtt (\<lambda>n. False) boot)) =
       [MqttConnected False, SerialPrint (Str ''Setup MQTT...'')]
       @ attempt_failed @ attempt_failed @ attempt_failed @ attempt_failed @ attempt_failed
   \<and> fst (ConnectMqtt flaky boot)
   \<and> trace (snd (ConnectMqtt flaky boot)) =
       [MqttConnected False, SerialPrint (Str ''Setup MQTT...'')]
       @ attempt_failed @ attempt_failed @ attempt_succeeded"
proof -
  have dead: "\<not> session_alive boot" by (simp add: boot_def)
  note t1 = ConnectMqtt_bounded_retry [OF dead, of "\<lambda>n. False"]
  note t2 = ConnectMqtt_bounded_retry [OF dead, of flaky]
  have a: "ConnectMqtt (\<lambda>n. False) boot =
          (False, (emits ([MqttConnected False, SerialPrint (Str ''Setup MQTT...'')]
                          @ concat (replicate 5 attempt_failed)) boot)
                    \<lparr>attempts := attempts boot + 5\<rparr>)"
    using t1 by simp
  have "(\<forall>j<2. \<not> flaky (attempts boot + j)) \<and> flaky (attempts boot + 2)"
    by (simp add: flaky_def boot_def)
  moreover from t2 have "\<forall>k<5. (\<forall>j<k. \<not> flaky (attempts boot + j)) \<and> flaky (attempts boot + k) \<longrightarrow>
        ConnectMqtt flaky boot =
          (True, (emits ([MqttConnected False, SerialPrint (Str ''Setup MQTT...'')]
                         @ concat (replicate k attempt_failed) @ attempt_succeeded) boot)
                   \<lparr>session_alive := True, attempts := attempts boot + k + 1\<rparr>)"
    by (elim conjE)
  then have "(2::nat) < 5 \<longrightarrow> (\<forall>j<2. \<not> flaky (attempts boot + j)) \<and> flaky (attempts boot + 2) \<longrightarrow>
        ConnectMqtt flaky boot =
          (True, (emits ([MqttConnected False, SerialPrint (Str ''Setup MQTT...'')]
                         @ concat (replicate 2 attempt_failed) @ attempt_succeeded) boot)
                   \<lparr>session_alive := True, attempts := attempts boot + 2 + 1\<rparr>)"
    by (rule spec)
  ultimately have b: "ConnectMqtt flaky boot =
          (True, (emits ([MqttConnected False, SerialPrint (Str ''Setup MQTT...'')]
                         @ concat (replicate 2 attempt_failed) @ attempt_succeeded) boot)
                   \<lparr>session_alive := True, attempts := attempts boot + 2 + 1\<rparr>)"
    by simp
  show ?thesis
    unfolding a b using dead
    by (simp add: trace_emits boot_def numeral_eq_Suc)
qed


lemma ConnectMqtt_alive:
  "session_alive w \<Longrightarrow>
   ConnectMqtt broker w =
     (True, emits [MqttConnected True, SerialPrintln (Str ''MQTT connecting alive'')] w)"
  by (simp add: ConnectMqtt_def Let_def emits_emits)

lemma ConnectMqtt_times_alive:
  "session_alive w \<Longrightarrow>
   ConnectMqtt_times broker n w =
     emits (concat (replicate n
       [MqttConnected True, SerialPrintln (Str ''MQTT connecting alive'')])) w"
proof (induction n)
  case 0
  then show ?case by (simp add: ConnectMqtt_times_def emits_def)
next
  case (Suc n)
  let ?w = "emits (concat (replicate n
       [MqttConnected True, SerialPrintln (Str ''MQTT connecting alive'')])) w"
  from Suc have eq: "ConnectMqtt_times broker n w = ?w" by simp
  from Suc.prems have "session_alive ?w" by (simp add: fields_emits)
  then have "snd (ConnectMqtt broker ?w) =
      emits [MqttConnected True, SerialPrintln (Str ''MQTT connecting alive'')] ?w"
    by (simp add: ConnectMqtt_alive)
  moreover have "ConnectMqtt_times broker (Suc n) w = snd (ConnectMqtt broker (ConnectMqtt_times broker n w))"
    by (simp add: ConnectMqtt_times_def)
  moreover have "concat (replicate (Suc n) [MqttConnected True, SerialPrintln (Str ''MQTT connecting alive'')])
     = concat (replicate n [MqttConnected True, SerialPrintln (Str ''MQTT connecting alive'')])
       @ [MqttConnected True, SerialPrintln (Str ''MQTT connecting alive'')]"
  proof -
    have "replicate (Suc n) [MqttConnected True, SerialPrintln (Str ''MQTT connecting alive'')]
       = replicate n [MqttConnected True, SerialPrintln (Str ''MQTT connecting alive'')]
         @ [[MqttConnected True, SerialPrintln (Str ''MQTT connecting alive'')]]"
      by (simp add: replicate_append_same)
    then show ?thesis by (simp only: concat_append) simp
  qed
  ultimately show ?case
    by (simp only: eq emits_emits)
qed

lemma no_reconnect_io:
  "filter (\<lambda>e. is_connect e \<or> is_delay e)
     (concat (replicate n [MqttConnected True, SerialPrintln (Str ''MQTT connecting alive'')])) = []"
  by (induction n) simp_all

text \<open>
  C4. On a live session \<open>ConnectMqtt\<close> returns true after asking the client whether it
  is connected and printing one line; it changes nothing else. Any number of calls in a
  row adds no connect call and no pause.
\<close>

theorem ConnectMqtt_live_session:
  assumes "session_alive w"
  shows "ConnectMqtt broker w =
       (True, emits [MqttConnected True, SerialPrintln (Str ''MQTT connecting alive'')] w)
   \<and> ConnectMqtt_times broker n w =
       emits (concat (replicate n
         [MqttConnected True, SerialPrintln (Str ''MQTT connecting alive'')])) w
   \<and> filter (\<lambda>e. is_connect e \<or> is_delay e) (trace (ConnectMqtt_times broker n w)) =
       filter (\<lambda>e. is_connect e \<or> is_delay e) (trace w)"
  using assms
  by (simp add: ConnectMqtt_alive ConnectMqtt_times_alive trace_emits no_reconnect_io)

theorem ConnectMqtt_live_session_witness:
  "session_alive (snd (ConnectMqtt (\<lambda>n. True) boot))
   \<and> ConnectMqtt (\<lambda>n. False) (snd (ConnectMqtt (\<lambda>n. True) boot)) =
       (True, emits [MqttConnected True, SerialPrintln (Str ''MQTT connecting alive'')]
                (snd (ConnectMqtt (\<lambda>n. True) boot)))
   \<and> filter (\<lambda>e. is_connect e \<or> is_delay e)
        (trace (ConnectMqtt_times (\<lambda>n. False) 3 (snd (ConnectMqtt (\<lambda>n. True) boot)))) =
       [MqttConnect ''gatekeeper'' True]"
proof -
  have dead: "\<not> session_alive boot" by (simp add: boot_def)
  have first: "ConnectMqtt (\<lambda>n. True) boot =
     (True, (emits ([MqttConnected False, SerialPrint (Str ''Setup MQTT...'')]
                     @ concat (replicate 0 attempt_failed) @ attempt_succeeded) boot)
              \<lparr>session_alive := True, attempts := attempts boot + 0 + 1\<rparr>)"
    using dead by (intro ConnectMqtt_first_success) simp_all
  have alive: "session_alive (snd (ConnectMqtt (\<lambda>n. True) boot))"
    by (simp add: first)
  have tr: "filter (\<lambda>e. is_connect e \<or> is_delay e) (trace (snd (ConnectMqtt (\<lambda>n. True) boot)))
      = [MqttConnect ''gatekeeper'' True]"
    by (subst first) (simp add: trace_emits boot_def attempt_succeeded_def MQTT_CLIENT_ID_def)
  note t = ConnectMqtt_live_session [OF alive, of "\<lambda>n. False" 3]
  from t have c1: "ConnectMqtt (\<lambda>n. False) (snd (ConnectMqtt (\<lambda>n. True) boot)) =
       (True, emits [MqttConnected True, SerialPrintln (Str ''MQTT connecting alive'')]
                (snd (ConnectMqtt (\<lambda>n. True) boot)))"
    by (rule conjunct1)
  from t have "filter (\<lambda>e. is_connect e \<or> is_delay e)
        (trace (ConnectMqtt_times (\<lambda>n. False) 3 (snd (ConnectMqtt (\<lambda>n. True) boot)))) =
      filter (\<lambda>e. is_connect e \<or> is_delay e) (trace (snd (ConnectMqtt (\<lambda>n. True) boot)))"
    by (elim conjE)
  then have c3: "filter (\<lambda>e. is_connect e \<or> is_delay e)
        (trace (ConnectMqtt_times (\<lambda>n. False) 3 (snd (ConnectMqtt (\<lambda>n. True) boot)))) =
       [MqttConnect ''gatekeeper'' True]"
    by (simp only: tr)
  from alive c1 c3 show ?thesis by (intro conjI)
qed

text \<open>Events that the retry loop, the callback and the poll never add.\<close>

lemma retry_quiet:
  "filter is_subscribe (trace (snd (ConnectMqtt_retry broker nLoop w))) = filter is_subscribe (trace w)
   \<and> filter is_connected_query (trace (snd (ConnectMqtt_retry broker nLoop w)))
       = filter is_connected_query (trace w)
   \<and> filter is_ota_handle (trace (snd (ConnectMqtt_retry broker nLoop w)))
       = filter is_ota_handle (trace w)"
proof (induction broker nLoop w rule: ConnectMqtt_retry.induct)
  case (1 broker nLoop w)
  show ?case
  proof (cases "nLoop < 5 \<and> \<not> broker (attempts w)")
    case True
    then have a: "nLoop < 5" and b: "\<not> fst (mqtt_connect broker MQTT_CLIENT_ID w)"
      by (simp_all add: mqtt_connect_def Let_def)
    from "1.IH" [OF a refl b] show ?thesis
      using a b
      by (subst (1 2 3) ConnectMqtt_retry.simps)
         (simp add: Let_def mqtt_connect_def trace_emits)
  next
    case False
    then show ?thesis
      by (subst (1 2 3) ConnectMqtt_retry.simps)
         (auto simp add: Let_def mqtt_connect_def trace_emits)
  qed
qed

lemma ConnectMqtt_quiet:
  "filter is_subscribe (trace (snd (ConnectMqtt broker w))) = filter is_subscribe (trace w)
   \<and> filter is_connected_query (trace (snd (ConnectMqtt broker w)))
       = filter is_connected_query (trace w) @ [MqttConnected (session_alive w)]
   \<and> filter is_ota_handle (trace (snd (ConnectMqtt broker w)))
       = filter is_ota_handle (trace w)"
  by (simp add: ConnectMqtt_def Let_def retry_quiet trace_emits)

lemma MqttCallback_quiet:
  "filter is_subscribe (trace (final (MqttCallback topic payload len w)))
       = filter is_subscribe (trace w)
   \<and> filter is_connected_query (trace (final (MqttCallback topic payload len w)))
       = filter is_connected_query (trace w)
   \<and> filter is_ota_handle (trace (final (MqttCallback topic payload len w)))
       = filter is_ota_handle (trace w)"
proof -
  have "filter is_subscribe (map (\<lambda>i. SerialPrint (Chr (payload i))) xs) = []"
    "filter is_connected_query (map (\<lambda>i. SerialPrint (Chr (payload i))) xs) = []"
    "filter is_ota_handle (map (\<lambda>i. SerialPrint (Chr (payload i))) xs) = []" for xs
    by (induction xs) simp_all
  then show ?thesis
    by (simp add: MqttCallback_trace arrival_def reaction_def)
qed

lemma mqtt_loop_quiet:
  "filter is_subscribe (trace (final (mqtt_loop p w))) = filter is_subscribe (trace w)
   \<and> filter is_connected_query (trace (final (mqtt_loop p w))) = filter is_connected_query (trace w)
   \<and> filter is_ota_handle (trace (final (mqtt_loop p w))) = filter is_ota_handle (trace w)"
proof (cases p)
  case (Arrived topic payload len)
  show ?thesis
  proof (cases "MqttCallback topic payload len w")
    case (Returns u w1)
    with MqttCallback_quiet [of topic payload len w] Arrived show ?thesis
      by (simp add: mqtt_loop_def trace_emits)
  next
    case (Halts h w1)
    with MqttCallback_quiet [of topic payload len w] Arrived show ?thesis
      by (simp add: mqtt_loop_def trace_emits)
  qed
qed (simp_all add: mqtt_loop_def trace_emits)

lemma loop_subscribes:
  "filter is_subscribe (trace (final (loop broker p w))) = filter is_subscribe (trace w)"
proof (cases "mqtt_loop p w")
  case (Returns alive w1)
  with mqtt_loop_quiet [of p w] show ?thesis
    by (simp add: loop_def Let_def trace_emits ConnectMqtt_quiet)
next
  case (Halts h w1)
  with mqtt_loop_quiet [of p w] show ?thesis
    by (simp add: loop_def)
qed

lemma loops_subscribes:
  "filter is_subscribe (trace (final (loops broker ps w))) = filter is_subscribe (trace w)"
proof (induction ps arbitrary: w)
  case Nil
  show ?case by simp
next
  case (Cons p ps)
  show ?case
  proof (cases "loop broker p w")
    case (Returns u w1)
    with loop_subscribes [of broker p w] Cons.IH [of w1] show ?thesis by simp
  next
    case (Halts h w1)
    with loop_subscribes [of broker p w] show ?thesis by simp
  qed
qed

lemma SetupMQTT_subscribes:
  "filter is_subscribe (trace (SetupMQTT broker w)) =
     filter is_subscribe (trace w) @ [MqttSubscribe MQTT_TOPIC]"
  by (simp add: SetupMQTT_def Let_def trace_emits ConnectMqtt_quiet)

text \<open>
  C6. \<open>SetupMQTT\<close> issues one subscription, to the gate topic. \<open>ConnectMqtt\<close> issues
  none, whether it reconnects or not, and neither does any pass of the main loop.
\<close>

theorem subscribe_only_in_SetupMQTT:
  "filter is_subscribe (trace (SetupMQTT broker w)) =
     filter is_subscribe (trace w) @ [MqttSubscribe MQTT_TOPIC]
   \<and> filter is_subscribe (trace (snd (ConnectMqtt broker w))) = filter is_subscribe (trace w)
   \<and> filter is_subscribe (trace (final (loops broker ps w))) = filter is_subscribe (trace w)"
  by (simp add: SetupMQTT_subscribes ConnectMqtt_quiet loops_subscribes)

theorem subscribe_only_in_SetupMQTT_witness:
  "filter is_subscribe (trace (SetupMQTT flaky boot)) = [MqttSubscribe ''control/gate'']
   \<and> filter is_subscribe (trace (snd (ConnectMqtt flaky boot))) = []
   \<and> filter is_subscribe
       (trace (final (loops flaky [Dropped, Quiet] (SetupMQTT flaky boot)))) =
       [MqttSubscribe ''control/gate'']"
  using subscribe_only_in_SetupMQTT [of flaky boot "[]"]
    subscribe_only_in_SetupMQTT [of flaky "SetupMQTT flaky boot" "[Dropped, Quiet]"]
  by (simp add: boot_def MQTT_TOPIC_def)


subsection \<open>The link supervisor\<close>

text \<open>
  The waiting loop looks at the flag before each delay, 30 times at most. It returns at
  the first look that finds the flag up, and restarts after the 30th delay whatever
  arrived during it.
\<close>

lemma NetworkEvent_flag:
  "eth_connected (NetworkEvent ev w) =
     (case ev of ARDUINO_EVENT_ETH_GOT_IP \<Rightarrow> True
      | ARDUINO_EVENT_ETH_DISCONNECTED \<Rightarrow> False
      | ARDUINO_EVENT_ETH_STOP \<Rightarrow> False
      | _ \<Rightarrow> eth_connected w)"
  by (cases ev) (simp_all add: NetworkEvent_def fields_emits)

lemma NetworkEvent_quiet:
  "filter is_delay (trace (NetworkEvent ev w)) = filter is_delay (trace w)
   \<and> filter is_restart (trace (NetworkEvent ev w)) = filter is_restart (trace w)"
  by (cases ev) (simp_all add: NetworkEvent_def trace_emits)

lemma deliver_quiet:
  "filter is_delay (trace (deliver evs w)) = filter is_delay (trace w)
   \<and> filter is_restart (trace (deliver evs w)) = filter is_restart (trace w)"
  by (induction evs arbitrary: w) (simp_all add: NetworkEvent_quiet)

lemma deliver_flag_same:
  "eth_connected w = eth_connected v \<Longrightarrow>
   eth_connected (deliver evs w) = eth_connected (deliver evs v)"
proof (induction evs arbitrary: w v)
  case Nil
  then show ?case by simp
next
  case (Cons ev evs)
  from Cons.prems have "eth_connected (NetworkEvent ev w) = eth_connected (NetworkEvent ev v)"
    by (simp add: NetworkEvent_flag split: WiFiEvent.split)
  then have "eth_connected (deliver evs (NetworkEvent ev w)) =
      eth_connected (deliver evs (NetworkEvent ev v))"
    by (rule Cons.IH)
  then show ?case by simp
qed

lemma deliver_flag_stays:
  "ARDUINO_EVENT_ETH_GOT_IP \<notin> set evs \<Longrightarrow> \<not> eth_connected w \<Longrightarrow>
   \<not> eth_connected (deliver evs w)"
proof (induction evs arbitrary: w)
  case Nil
  then show ?case by simp
next
  case (Cons ev evs)
  from Cons.prems have "\<not> eth_connected (NetworkEvent ev w)"
    by (cases ev) (simp_all add: NetworkEvent_flag)
  with Cons.prems Cons.IH show ?case by simp
qed

lemma one_tick_flag: "eth_connected (one_tick evs w) = eth_connected (deliver evs w)"
  unfolding one_tick_def fields_emits
  by (rule deliver_flag_same) (simp add: fields_emits)

lemma one_tick_quiet:
  "filter is_delay (trace (one_tick evs w)) = filter is_delay (trace w) @ [Delay 1000]
   \<and> filter is_restart (trace (one_tick evs w)) = filter is_restart (trace w)"
  by (simp add: one_tick_def trace_emits deliver_quiet)

lemma wait_up: "eth_connected w \<Longrightarrow> SetupNetwork_wait net tick nWait w = Returns () w"
  by (subst SetupNetwork_wait.simps) simp

lemma wait_step:
  "\<not> eth_connected w \<Longrightarrow> nWait - 1 \<noteq> 0 \<Longrightarrow>
   SetupNetwork_wait net tick nWait w =
     SetupNetwork_wait net (tick + 1) (nWait - 1) (one_tick (net tick) w)"
  by (subst SetupNetwork_wait.simps) (simp add: Let_def one_tick_def)

lemma wait_last:
  "\<not> eth_connected w \<Longrightarrow> nWait - 1 = 0 \<Longrightarrow>
   SetupNetwork_wait net tick nWait w =
     Halts Restart
       (emits [SerialPrintln (Str ''.''), SerialPrintln (Str ''Connection Failed! Rebooting...''),
               EspRestart] (one_tick (net tick) w))"
  by (subst SetupNetwork_wait.simps) (simp add: Let_def one_tick_def)

lemma budget_left: "Suc n < 2 ^ 32 \<Longrightarrow> (of_nat (Suc n) :: 32 word) \<noteq> 0"
  by (simp add: word_of_nat_eq_0_iff nat_dvd_not_less del: of_nat_Suc)

lemma budget_pred: "(of_nat (Suc n) :: 32 word) - 1 = of_nat n"
  by simp

lemma wait_exhausts:
  "\<not> eth_connected w \<Longrightarrow> Suc n < 2 ^ 32 \<Longrightarrow>
   \<forall>j<n. ARDUINO_EVENT_ETH_GOT_IP \<notin> set (net (tick + j)) \<Longrightarrow>
   stopped (SetupNetwork_wait net tick (of_nat (Suc n)) w) = Some Restart
   \<and> filter is_delay (trace (final (SetupNetwork_wait net tick (of_nat (Suc n)) w))) =
       filter is_delay (trace w) @ replicate (Suc n) (Delay 1000)
   \<and> filter is_restart (trace (final (SetupNetwork_wait net tick (of_nat (Suc n)) w))) =
       filter is_restart (trace w) @ [EspRestart]
   \<and> eth_connected (final (SetupNetwork_wait net tick (of_nat (Suc n)) w)) =
       eth_connected (deliver (net (tick + n)) w)"
proof (induction n arbitrary: tick w)
  case 0
  have "SetupNetwork_wait net tick (of_nat (Suc 0)) w =
     Halts Restart
       (emits [SerialPrintln (Str ''.''), SerialPrintln (Str ''Connection Failed! Rebooting...''),
               EspRestart] (one_tick (net tick) w))"
    using "0.prems"(1) by (intro wait_last) simp_all
  then show ?case
    by (simp add: trace_emits fields_emits one_tick_quiet one_tick_flag)
next
  case (Suc n)
  let ?w = "one_tick (net tick) w"
  from Suc.prems(3) have "ARDUINO_EVENT_ETH_GOT_IP \<notin> set (net tick)"
    by (metis add.right_neutral zero_less_Suc)
  with Suc.prems(1) have down: "\<not> eth_connected ?w"
    by (simp add: one_tick_flag deliver_flag_stays)
  from Suc.prems(2) have left: "(of_nat (Suc (Suc n)) :: 32 word) - 1 \<noteq> 0"
    by (simp only: budget_pred) (rule budget_left, simp)
  have step: "SetupNetwork_wait net tick (of_nat (Suc (Suc n))) w =
      SetupNetwork_wait net (tick + 1) (of_nat (Suc n)) ?w"
    using wait_step [OF Suc.prems(1) left, of net tick] by (simp only: budget_pred)
  have later: "\<forall>j<n. ARDUINO_EVENT_ETH_GOT_IP \<notin> set (net (tick + 1 + j))"
    using Suc.prems(3) by (metis Suc_less_eq add_Suc_right add_Suc_shift Suc_eq_plus1)
  from Suc.prems(2) have bound: "Suc n < 2 ^ 32" by simp
  note ih = Suc.IH [OF down bound later]
  have flag: "eth_connected (deliver (net (tick + 1 + n)) ?w) =
      eth_connected (deliver (net (tick + Suc n)) w)"
  proof -
    from down Suc.prems(1) have "eth_connected ?w = eth_connected w" by simp
    then have "eth_connected (deliver (net (tick + Suc n)) ?w) =
        eth_connected (deliver (net (tick + Suc n)) w)"
      by (rule deliver_flag_same)
    then show ?thesis by simp
  qed
  let ?r = "SetupNetwork_wait net (tick + 1) (of_nat (Suc n)) ?w"
  from ih have a: "stopped ?r = Some Restart"
    by (rule conjunct1)
  from ih have "filter is_delay (trace (final ?r)) =
      filter is_delay (trace ?w) @ replicate (Suc n) (Delay 1000)"
    by (elim conjE)
  then have b: "filter is_delay (trace (final ?r)) =
      filter is_delay (trace w) @ replicate (Suc (Suc n)) (Delay 1000)"
    by (simp only: one_tick_quiet append_assoc append_Cons append_Nil replicate_Suc)
  from ih have "filter is_restart (trace (final ?r)) = filter is_restart (trace ?w) @ [EspRestart]"
    by (elim conjE)
  then have c: "filter is_restart (trace (final ?r)) = filter is_restart (trace w) @ [EspRestart]"
    by (simp only: one_tick_quiet)
  from ih have "eth_connected (final ?r) = eth_connected (deliver (net (tick + 1 + n)) ?w)"
    by (elim conjE)
  with flag have d: "eth_connected (final ?r) = eth_connected (deliver (net (tick + Suc n)) w)"
    by (simp only:)
  from a b c d show ?case
    unfolding step by (intro conjI)
qed


lemma wait_link_up:
  "\<not> eth_connected w \<Longrightarrow> Suc (Suc (m + r)) < 2 ^ 32 \<Longrightarrow>
   \<forall>j<m. ARDUINO_EVENT_ETH_GOT_IP \<notin> set (net (tick + j)) \<Longrightarrow>
   eth_connected (deliver (net (tick + m)) w) \<Longrightarrow>
   stopped (SetupNetwork_wait net tick (of_nat (Suc (Suc (m + r)))) w) = None
   \<and> filter is_delay (trace (final (SetupNetwork_wait net tick (of_nat (Suc (Suc (m + r)))) w))) =
       filter is_delay (trace w) @ replicate (Suc m) (Delay 1000)
   \<and> filter is_restart (trace (final (SetupNetwork_wait net tick (of_nat (Suc (Suc (m + r)))) w))) =
       filter is_restart (trace w)
   \<and> eth_connected (final (SetupNetwork_wait net tick (of_nat (Suc (Suc (m + r)))) w))"
proof (induction m arbitrary: tick w)
  case 0
  let ?w = "one_tick (net tick) w"
  from "0.prems"(2) have "Suc r < 2 ^ 32" by simp
  then have left: "(of_nat (Suc (Suc (0 + r))) :: 32 word) - 1 \<noteq> 0"
    by (simp only: budget_pred add_0) (rule budget_left)
  have step: "SetupNetwork_wait net tick (of_nat (Suc (Suc (0 + r)))) w =
      SetupNetwork_wait net (tick + 1) (of_nat (Suc (0 + r))) ?w"
    using wait_step [OF "0.prems"(1) left, of net tick] by (simp only: budget_pred)
  from "0.prems"(4) have up: "eth_connected ?w"
    by (simp add: one_tick_flag)
  then have "SetupNetwork_wait net (tick + 1) (of_nat (Suc (0 + r))) ?w = Returns () ?w"
    by (rule wait_up)
  with up show ?case
    unfolding step by (simp add: one_tick_quiet)
next
  case (Suc m)
  let ?w = "one_tick (net tick) w"
  from Suc.prems(3) have "ARDUINO_EVENT_ETH_GOT_IP \<notin> set (net tick)"
    by (metis add.right_neutral zero_less_Suc)
  with Suc.prems(1) have down: "\<not> eth_connected ?w"
    by (simp add: one_tick_flag deliver_flag_stays)
  from Suc.prems(2) have bound: "Suc (Suc (m + r)) < 2 ^ 32" by simp
  have left: "(of_nat (Suc (Suc (Suc m + r))) :: 32 word) - 1 \<noteq> 0"
    using bound by (simp only: budget_pred add_Suc) (rule budget_left)
  have step: "SetupNetwork_wait net tick (of_nat (Suc (Suc (Suc m + r)))) w =
      SetupNetwork_wait net (tick + 1) (of_nat (Suc (Suc (m + r)))) ?w"
    using wait_step [OF Suc.prems(1) left, of net tick] by (simp only: budget_pred add_Suc)
  have later: "\<forall>j<m. ARDUINO_EVENT_ETH_GOT_IP \<notin> set (net (tick + 1 + j))"
    using Suc.prems(3) by (metis Suc_less_eq add_Suc_right add_Suc_shift Suc_eq_plus1)
  have up: "eth_connected (deliver (net (tick + 1 + m)) ?w)"
  proof -
    from down Suc.prems(1) have "eth_connected ?w = eth_connected w" by simp
    then have "eth_connected (deliver (net (tick + Suc m)) ?w) =
        eth_connected (deliver (net (tick + Suc m)) w)"
      by (rule deliver_flag_same)
    with Suc.prems(4) show ?thesis by simp
  qed
  note ih = Suc.IH [OF down bound later up]
  let ?r = "SetupNetwork_wait net (tick + 1) (of_nat (Suc (Suc (m + r)))) ?w"
  from ih have a: "stopped ?r = None"
    by (rule conjunct1)
  from ih have "filter is_delay (trace (final ?r)) =
      filter is_delay (trace ?w) @ replicate (Suc m) (Delay 1000)"
    by (elim conjE)
  then have b: "filter is_delay (trace (final ?r)) =
      filter is_delay (trace w) @ replicate (Suc (Suc m)) (Delay 1000)"
    by (simp only: one_tick_quiet append_assoc append_Cons append_Nil replicate_Suc)
  from ih have "filter is_restart (trace (final ?r)) = filter is_restart (trace ?w)"
    by (elim conjE)
  then have c: "filter is_restart (trace (final ?r)) = filter is_restart (trace w)"
    by (simp only: one_tick_quiet)
  from ih have d: "eth_connected (final ?r)"
    by (elim conjE)
  from a b c d show ?case
    unfolding step by (intro conjI)
qed

lemma SetupNetwork_final:
  "final (SetupNetwork net w) =
     (let r = SetupNetwork_wait net 1 CONNECT_WAIT
                (deliver (net 0)
                  (emits [Delay 100, SerialPrint (Str ''Connecting network''),
                          WiFiOnEvent, EthBegin] w))
      in if stopped r = None then emits [SerialPrintln (Str ''.'')] (final r) else final r)"
  by (simp add: SetupNetwork_def Let_def split: result.split)

lemma SetupNetwork_stopped:
  "stopped (SetupNetwork net w) =
     stopped (SetupNetwork_wait net 1 CONNECT_WAIT
                (deliver (net 0)
                  (emits [Delay 100, SerialPrint (Str ''Connecting network''),
                          WiFiOnEvent, EthBegin] w)))"
  by (simp add: SetupNetwork_def Let_def split: result.split)

lemma budget_30: "CONNECT_WAIT = of_nat (Suc 29)"
  by (simp add: CONNECT_WAIT_def)

lemma SetupNetwork_budget_exhausted:
  assumes "\<not> eth_connected w" and "\<forall>k<30. ARDUINO_EVENT_ETH_GOT_IP \<notin> set (net k)"
  shows "stopped (SetupNetwork net w) = Some Restart
   \<and> filter is_delay (trace (final (SetupNetwork net w))) =
       filter is_delay (trace w) @ Delay 100 # replicate 30 (Delay 1000)
   \<and> filter is_restart (trace (final (SetupNetwork net w))) =
       filter is_restart (trace w) @ [EspRestart]
   \<and> eth_connected (final (SetupNetwork net w)) = eth_connected (deliver (net 30) w)"
proof -
  let ?w0 = "emits [Delay 100, SerialPrint (Str ''Connecting network''), WiFiOnEvent, EthBegin] w"
  let ?w = "deliver (net 0) ?w0"
  let ?r = "SetupNetwork_wait net 1 (of_nat (Suc 29)) ?w"
  from assms have down: "\<not> eth_connected ?w"
    by (intro deliver_flag_stays) (simp_all add: fields_emits)
  have quiet: "\<forall>j<29. ARDUINO_EVENT_ETH_GOT_IP \<notin> set (net (1 + j))"
    using assms(2) by simp
  have bound: "Suc 29 < (2::nat) ^ 32" by simp
  note t = wait_exhausts [OF down bound quiet]
  from t have a: "stopped ?r = Some Restart"
    by (rule conjunct1)
  from t have "filter is_delay (trace (final ?r)) =
      filter is_delay (trace ?w) @ replicate (Suc 29) (Delay 1000)"
    by (elim conjE)
  moreover have "Suc 29 = 30" by simp
  ultimately have b: "filter is_delay (trace (final ?r)) =
      filter is_delay (trace w) @ Delay 100 # replicate 30 (Delay 1000)"
    by (simp only: deliver_quiet) (simp add: trace_emits)
  from t have "filter is_restart (trace (final ?r)) = filter is_restart (trace ?w) @ [EspRestart]"
    by (elim conjE)
  then have c: "filter is_restart (trace (final ?r)) = filter is_restart (trace w) @ [EspRestart]"
    by (simp only: deliver_quiet) (simp add: trace_emits)
  from t have "eth_connected (final ?r) = eth_connected (deliver (net (1 + 29)) ?w)"
    by (elim conjE)
  moreover have "eth_connected (deliver (net 30) ?w) = eth_connected (deliver (net 30) w)"
    using down assms(1) by (intro deliver_flag_same) simp
  ultimately have d: "eth_connected (final ?r) = eth_connected (deliver (net 30) w)"
    by simp
  from a b c d show ?thesis
    by (simp only: SetupNetwork_final SetupNetwork_stopped budget_30 Let_def) simp
qed

lemma SetupNetwork_link_up:
  assumes "\<not> eth_connected w" and "d < 30"
    and "\<forall>k<d. ARDUINO_EVENT_ETH_GOT_IP \<notin> set (net k)"
    and "eth_connected (deliver (net d) w)"
  shows "stopped (SetupNetwork net w) = None
   \<and> filter is_delay (trace (final (SetupNetwork net w))) =
       filter is_delay (trace w) @ Delay 100 # replicate d (Delay 1000)
   \<and> filter is_restart (trace (final (SetupNetwork net w))) = filter is_restart (trace w)
   \<and> eth_connected (final (SetupNetwork net w))"
proof (cases d)
  case 0
  let ?w0 = "emits [Delay 100, SerialPrint (Str ''Connecting network''), WiFiOnEvent, EthBegin] w"
  let ?w = "deliver (net 0) ?w0"
  have "eth_connected ?w = eth_connected (deliver (net 0) w)"
    by (rule deliver_flag_same) (simp add: fields_emits)
  with assms(4) 0 have up: "eth_connected ?w" by simp
  then have "SetupNetwork_wait net 1 CONNECT_WAIT ?w = Returns () ?w"
    by (rule wait_up)
  with up 0 show ?thesis
    by (simp add: SetupNetwork_def Let_def trace_emits fields_emits deliver_quiet)
next
  case (Suc m)
  let ?w0 = "emits [Delay 100, SerialPrint (Str ''Connecting network''), WiFiOnEvent, EthBegin] w"
  let ?w = "deliver (net 0) ?w0"
  let ?r = "SetupNetwork_wait net 1 (of_nat (Suc (Suc (m + (28 - m))))) ?w"
  from assms(2) Suc have m: "m \<le> 28" by simp
  then have budget: "Suc (Suc (m + (28 - m))) = Suc 29" by simp
  from assms(3) Suc have "ARDUINO_EVENT_ETH_GOT_IP \<notin> set (net 0)" by simp
  with assms(1) have down: "\<not> eth_connected ?w"
    by (intro deliver_flag_stays) (simp_all add: fields_emits)
  have quiet: "\<forall>j<m. ARDUINO_EVENT_ETH_GOT_IP \<notin> set (net (1 + j))"
    using assms(3) Suc by simp
  have bound: "Suc (Suc (m + (28 - m))) < (2::nat) ^ 32"
    by (simp only: budget) simp
  have "eth_connected (deliver (net (1 + m)) ?w) = eth_connected (deliver (net (1 + m)) w)"
    using down assms(1) by (intro deliver_flag_same) simp
  with assms(4) Suc have up: "eth_connected (deliver (net (1 + m)) ?w)" by simp
  note t = wait_link_up [OF down bound quiet up]
  from t have a: "stopped ?r = None"
    by (rule conjunct1)
  from t have "filter is_delay (trace (final ?r)) =
      filter is_delay (trace ?w) @ replicate (Suc m) (Delay 1000)"
    by (elim conjE)
  then have b: "filter is_delay (trace (final ?r)) =
      filter is_delay (trace w) @ Delay 100 # replicate d (Delay 1000)"
    by (simp only: deliver_quiet Suc) (simp add: trace_emits)
  from t have "filter is_restart (trace (final ?r)) = filter is_restart (trace ?w)"
    by (elim conjE)
  then have c: "filter is_restart (trace (final ?r)) = filter is_restart (trace w)"
    by (simp only: deliver_quiet) (simp add: trace_emits)
  from t have e: "eth_connected (final ?r)"
    by (elim conjE)
  from a b c e show ?thesis
    by (simp only: SetupNetwork_final SetupNetwork_stopped budget_30 budget [symmetric] Let_def)
       (simp add: trace_emits fields_emits)
qed

text \<open>
  C2, where the code departs from it. When the address arrives during the 30th
  one-second wait, the budget is not yet used up, and yet \<open>SetupNetwork\<close> restarts:
  after the 30th delay it tests the counter alone, not the flag, which is up by then.
\<close>

theorem SetupNetwork_restarts_on_late_link:
  "stopped (SetupNetwork late_link boot) = Some Restart
   \<and> eth_connected (final (SetupNetwork late_link boot))
   \<and> filter is_delay (trace (final (SetupNetwork late_link boot))) =
       Delay 100 # replicate 30 (Delay 1000)"
proof -
  have dead: "\<not> eth_connected boot" by (simp add: boot_def)
  have quiet: "\<forall>k<30. ARDUINO_EVENT_ETH_GOT_IP \<notin> set (late_link k)"
    by (simp add: late_link_def)
  have up: "eth_connected (deliver (late_link 30) boot)"
    by (simp add: late_link_def NetworkEvent_flag)
  have none: "filter is_delay (trace boot) = []" by (simp add: boot_def)
  from SetupNetwork_budget_exhausted [OF dead quiet] up none show ?thesis
    by simp
qed

subsection \<open>Setting up the session\<close>

lemma restarts_failed: "filter is_restart (concat (replicate n attempt_failed)) = []"
  by (induction n) (simp_all add: attempt_failed_def)

lemma SetupMQTT_all_fail:
  assumes "\<not> session_alive w" and "\<forall>j<5. \<not> broker (attempts w + j)"
  shows "SetupMQTT broker w =
     (emits ([MqttSetClient, MqttSetServer MQTT_SERVER MQTT_PORT,
              MqttConnected False, SerialPrint (Str ''Setup MQTT...'')]
             @ concat (replicate 5 attempt_failed)
             @ [MqttSetCallback, MqttSubscribe MQTT_TOPIC,
                SerialPrint (Str ''Subscribed to topic ''), SerialPrintln (Str MQTT_TOPIC)]) w)
       \<lparr>callback_set := True, attempts := attempts w + 5\<rparr>"
proof -
  let ?w1 = "emits [MqttSetClient, MqttSetServer MQTT_SERVER MQTT_PORT] w"
  have "ConnectMqtt broker ?w1 =
     (False, (emits ([MqttConnected False, SerialPrint (Str ''Setup MQTT...'')]
                     @ concat (replicate 5 attempt_failed)) ?w1)\<lparr>attempts := attempts ?w1 + 5\<rparr>)"
    using assms by (intro ConnectMqtt_all_fail) (simp_all add: fields_emits)
  then show ?thesis
    by (simp add: SetupMQTT_def Let_def emits_def)
qed

lemma arduino_setup_stops:
  "stopped (arduino_setup net broker w) =
     stopped (SetupNetwork net
       (emits [SerialBegin BAUDRATE,
               SerialPrint (Str (CRLF @ '' '' @ CRLF @ ''Booting GateKeeper, version '')),
               SerialPrintln (Str APP_VERSION)] w))"
  by (simp add: arduino_setup_def Let_def split: result.split)

text \<open>
  C10. \<open>SetupMQTT\<close> throws the answer of \<open>ConnectMqtt\<close> away. When the five connect
  calls fail it goes on all the same: it installs the callback and subscribes once, on a
  session that is still dead, and returns without restart. No pass of the main loop
  subscribes again.
\<close>

theorem SetupMQTT_ignores_failed_connect:
  assumes "\<not> session_alive w" and "\<forall>j<5. \<not> broker (attempts w + j)"
  shows "SetupMQTT broker w =
     (emits ([MqttSetClient, MqttSetServer MQTT_SERVER MQTT_PORT,
              MqttConnected False, SerialPrint (Str ''Setup MQTT...'')]
             @ concat (replicate 5 attempt_failed)
             @ [MqttSetCallback, MqttSubscribe MQTT_TOPIC,
                SerialPrint (Str ''Subscribed to topic ''), SerialPrintln (Str MQTT_TOPIC)]) w)
       \<lparr>callback_set := True, attempts := attempts w + 5\<rparr>
   \<and> \<not> session_alive (SetupMQTT broker w)
   \<and> filter is_restart (trace (SetupMQTT broker w)) = filter is_restart (trace w)
   \<and> filter is_subscribe (trace (final (loops broker ps (SetupMQTT broker w)))) =
       filter is_subscribe (trace w) @ [MqttSubscribe MQTT_TOPIC]"
proof -
  note eq = SetupMQTT_all_fail [OF assms]
  have "\<not> session_alive (SetupMQTT broker w)"
    using assms(1) by (simp add: eq fields_emits)
  moreover have "filter is_restart (trace (SetupMQTT broker w)) = filter is_restart (trace w)"
    by (simp add: eq trace_emits restarts_failed)
  moreover have "filter is_subscribe (trace (final (loops broker ps (SetupMQTT broker w)))) =
       filter is_subscribe (trace w) @ [MqttSubscribe MQTT_TOPIC]"
    by (simp only: loops_subscribes SetupMQTT_subscribes)
  ultimately show ?thesis using eq by blast
qed

theorem SetupMQTT_ignores_failed_connect_witness:
  "\<not> session_alive boot
   \<and> \<not> session_alive (SetupMQTT (\<lambda>n. False) boot)
   \<and> trace (SetupMQTT (\<lambda>n. False) boot) =
       [MqttSetClient, MqttSetServer ''mosquitto.moerman.online'' 1883,
        MqttConnected False, SerialPrint (Str ''Setup MQTT...'')]
       @ attempt_failed @ attempt_failed @ attempt_failed @ attempt_failed @ attempt_failed
       @ [MqttSetCallback, MqttSubscribe ''control/gate'',
          SerialPrint (Str ''Subscribed to topic ''), SerialPrintln (Str ''control/gate'')]
   \<and> filter is_subscribe (trace (final (loops (\<lambda>n. False) [Quiet, Quiet] (SetupMQTT (\<lambda>n. False) boot))))
       = [MqttSubscribe ''control/gate'']"
proof -
  have dead: "\<not> session_alive boot" by (simp add: boot_def)
  have fails: "\<forall>j<5. \<not> (\<lambda>n. False) (attempts boot + j)" by simp
  note t = SetupMQTT_ignores_failed_connect [OF dead fails, of "[Quiet, Quiet]"]
  from t have eq: "SetupMQTT (\<lambda>n. False) boot =
     (emits ([MqttSetClient, MqttSetServer MQTT_SERVER MQTT_PORT,
              MqttConnected False, SerialPrint (Str ''Setup MQTT...'')]
             @ concat (replicate 5 attempt_failed)
             @ [MqttSetCallback, MqttSubscribe MQTT_TOPIC,
                SerialPrint (Str ''Subscribed to topic ''), SerialPrintln (Str MQTT_TOPIC)]) boot)
       \<lparr>callback_set := True, attempts := attempts boot + 5\<rparr>"
    by (rule conjunct1)
  have tr: "trace (SetupMQTT (\<lambda>n. False) boot) =
       [MqttSetClient, MqttSetServer ''mosquitto.moerman.online'' 1883,
        MqttConnected False, SerialPrint (Str ''Setup MQTT...'')]
       @ attempt_failed @ attempt_failed @ attempt_failed @ attempt_failed @ attempt_failed
       @ [MqttSetCallback, MqttSubscribe ''control/gate'',
          SerialPrint (Str ''Subscribed to topic ''), SerialPrintln (Str ''control/gate'')]"
    by (subst eq)
       (simp add: trace_emits boot_def numeral_eq_Suc MQTT_SERVER_def MQTT_PORT_def MQTT_TOPIC_def)
  from t have d: "\<not> session_alive (SetupMQTT (\<lambda>n. False) boot)"
    by (elim conjE)
  from t have "filter is_subscribe
        (trace (final (loops (\<lambda>n. False) [Quiet, Quiet] (SetupMQTT (\<lambda>n. False) boot)))) =
       filter is_subscribe (trace boot) @ [MqttSubscribe MQTT_TOPIC]"
    by (elim conjE)
  then have s: "filter is_subscribe
        (trace (final (loops (\<lambda>n. False) [Quiet, Quiet] (SetupMQTT (\<lambda>n. False) boot)))) =
       [MqttSubscribe ''control/gate'']"
    by (simp add: boot_def MQTT_TOPIC_def)
  from dead d tr s show ?thesis by (intro conjI)
qed

subsection \<open>The main loop\<close>

text \<open>
  The poll stops the program in one case only: the session is alive, the callback is
  installed and the message handed to it starts with \<open>'9'\<close>. In every other case it
  returns, with the answer false when the session is dead or was found lost.
\<close>

lemma mqtt_loop_restarts:
  assumes "session_alive w" and "callback_set w" and "restart_message p"
  shows "stopped (mqtt_loop p w) = Some Restart"
proof (cases p)
  case (Arrived topic payload len)
  with assms(3) have "payload 0 = CHR ''9''" by simp
  then have "MqttCallback topic payload len w =
      Halts Restart (emits (arrival topic payload len @ reaction (payload 0)) w)"
    by (simp add: MqttCallback_result)
  with assms(1,2) Arrived show ?thesis
    by (simp add: mqtt_loop_def)
qed (use assms(3) in simp_all)

lemma mqtt_loop_returns:
  assumes "\<not> (session_alive w \<and> callback_set w \<and> restart_message p)"
  shows "mqtt_loop p w = Returns (session_alive w \<and> p \<noteq> Dropped) (final (mqtt_loop p w))"
proof (cases p)
  case (Arrived topic payload len)
  show ?thesis
  proof (cases "session_alive w \<and> callback_set w")
    case True
    with assms Arrived have "payload 0 \<noteq> CHR ''9''" by simp
    then have "MqttCallback topic payload len w =
        Returns () (emits (arrival topic payload len @ reaction (payload 0)) w)"
      by (simp add: MqttCallback_result)
    with True Arrived show ?thesis
      by (simp add: mqtt_loop_def)
  next
    case False
    with Arrived show ?thesis
      by (auto simp add: mqtt_loop_def)
  qed
qed (simp_all add: mqtt_loop_def)

lemma mqtt_loop_dead:
  "\<not> (session_alive w \<and> p \<noteq> Dropped) \<Longrightarrow> \<not> session_alive (final (mqtt_loop p w))"
  by (cases p) (auto simp add: mqtt_loop_def fields_emits)

lemma SetupMQTT_first_try:
  assumes "\<not> session_alive w" and "broker (attempts w)"
  shows "session_alive (SetupMQTT broker w) \<and> callback_set (SetupMQTT broker w)"
proof -
  let ?w1 = "emits [MqttSetClient, MqttSetServer MQTT_SERVER MQTT_PORT] w"
  have "ConnectMqtt broker ?w1 =
     (True, (emits ([MqttConnected False, SerialPrint (Str ''Setup MQTT...'')]
                     @ concat (replicate 0 attempt_failed) @ attempt_succeeded) ?w1)
              \<lparr>session_alive := True, attempts := attempts ?w1 + 0 + 1\<rparr>)"
    using assms by (intro ConnectMqtt_first_success) (simp_all add: fields_emits)
  then show ?thesis
    by (simp add: SetupMQTT_def Let_def fields_emits)
qed

lemma SetupMQTT_quiet:
  "filter is_ota_handle (trace (SetupMQTT broker w)) = filter is_ota_handle (trace w)"
  by (simp add: SetupMQTT_def Let_def trace_emits ConnectMqtt_quiet)

lemma loop_restarts:
  assumes "session_alive w" and "callback_set w" and "restart_message p"
  shows "stopped (loop broker p w) = Some Restart
   \<and> filter is_ota_handle (trace (final (loop broker p w))) = filter is_ota_handle (trace w)
   \<and> filter is_connected_query (trace (final (loop broker p w))) =
       filter is_connected_query (trace w)"
proof (cases "mqtt_loop p w")
  case (Returns alive w1)
  with mqtt_loop_restarts [OF assms] show ?thesis by simp
next
  case (Halts h w1)
  with mqtt_loop_restarts [OF assms] mqtt_loop_quiet [of p w] show ?thesis
    by (simp add: loop_def)
qed

lemma loop_returns:
  assumes "\<not> (session_alive w \<and> callback_set w \<and> restart_message p)"
  shows "loop broker p w =
     Returns ()
       (emits [OtaHandle]
         (if session_alive w \<and> p \<noteq> Dropped then final (mqtt_loop p w)
          else snd (ConnectMqtt broker (final (mqtt_loop p w)))))"
proof -
  note poll = mqtt_loop_returns [OF assms]
  show ?thesis
    by (subst loop_def, subst poll) (simp add: Let_def)
qed

text \<open>
  C9, as stated: every pass of \<open>loop\<close> calls \<open>ConnectMqtt\<close> once and
  \<open>ArduinoOTA.handle\<close> once. After a setup whose first connect succeeded, a pass whose
  poll finds the session alive returns without calling \<open>ConnectMqtt\<close>; and a pass
  whose poll hands the message \<open>9\<close> to the callback ends in the restart, before
  \<open>ArduinoOTA.handle\<close> is reached.
\<close>

theorem loop_skips_ConnectMqtt_counterexample:
  "stopped (loop (\<lambda>n. True) Quiet (SetupMQTT (\<lambda>n. True) boot)) = None
   \<and> length (filter is_connected_query
        (trace (final (loop (\<lambda>n. True) Quiet (SetupMQTT (\<lambda>n. True) boot)))))
      \<noteq> length (filter is_connected_query (trace (SetupMQTT (\<lambda>n. True) boot))) + 1
   \<and> stopped (loop (\<lambda>n. True) (Arrived ''control/gate'' (buffer ''9'') 1)
        (SetupMQTT (\<lambda>n. True) boot)) = Some Restart
   \<and> length (filter is_ota_handle
        (trace (final (loop (\<lambda>n. True) (Arrived ''control/gate'' (buffer ''9'') 1)
          (SetupMQTT (\<lambda>n. True) boot)))))
      \<noteq> length (filter is_ota_handle (trace (SetupMQTT (\<lambda>n. True) boot))) + 1"
proof -
  let ?w = "SetupMQTT (\<lambda>n. True) boot"
  have up: "session_alive ?w \<and> callback_set ?w"
    by (rule SetupMQTT_first_try) (simp_all add: boot_def)
  then have "\<not> (session_alive ?w \<and> callback_set ?w \<and> restart_message Quiet)" by simp
  then have "loop (\<lambda>n. True) Quiet ?w =
     Returns ()
       (emits [OtaHandle]
         (if session_alive ?w \<and> Quiet \<noteq> Dropped then final (mqtt_loop Quiet ?w)
          else snd (ConnectMqtt (\<lambda>n. True) (final (mqtt_loop Quiet ?w)))))"
    by (rule loop_returns)
  with up have quiet: "loop (\<lambda>n. True) Quiet ?w =
      Returns () (emits [OtaHandle] (final (mqtt_loop Quiet ?w)))"
    by simp
  have a: "stopped (loop (\<lambda>n. True) Quiet ?w) = None"
    by (simp add: quiet)
  have b: "length (filter is_connected_query (trace (final (loop (\<lambda>n. True) Quiet ?w))))
      \<noteq> length (filter is_connected_query (trace ?w)) + 1"
    by (simp add: quiet trace_emits mqtt_loop_quiet)
  have nine: "restart_message (Arrived ''control/gate'' (buffer ''9'') 1)"
    by (simp add: buffer_def)
  note r = loop_restarts [OF conjunct1 [OF up] conjunct2 [OF up] nine, of "\<lambda>n. True"]
  from r have c: "stopped (loop (\<lambda>n. True) (Arrived ''control/gate'' (buffer ''9'') 1) ?w)
      = Some Restart"
    by (rule conjunct1)
  from r have d: "length (filter is_ota_handle
        (trace (final (loop (\<lambda>n. True) (Arrived ''control/gate'' (buffer ''9'') 1) ?w))))
      \<noteq> length (filter is_ota_handle (trace ?w)) + 1"
    by simp
  from a b c d show ?thesis by (intro conjI)
qed

text \<open>
  C9, amended. A pass of \<open>loop\<close> ends in the restart when the poll hands a message that
  starts with \<open>'9'\<close> to the installed callback of a live session; then neither
  \<open>ConnectMqtt\<close> nor \<open>ArduinoOTA.handle\<close> is called. Every other pass returns, and is
  the poll, then the call of \<open>ConnectMqtt\<close> if and only if the poll answered false,
  then \<open>ArduinoOTA.handle\<close>: the maintenance tick is made exactly once, \<open>ConnectMqtt\<close>
  exactly once after the answer false and not at all after the answer true.
\<close>

theorem loop_pass:
  "(if session_alive w \<and> callback_set w \<and> restart_message p
    then stopped (loop broker p w) = Some Restart
       \<and> filter is_ota_handle (trace (final (loop broker p w))) =
           filter is_ota_handle (trace w)
       \<and> filter is_connected_query (trace (final (loop broker p w))) =
           filter is_connected_query (trace w)
    else returned (mqtt_loop p w) = Some (session_alive w \<and> p \<noteq> Dropped)
       \<and> loop broker p w =
           Returns ()
             (emits [OtaHandle]
               (if session_alive w \<and> p \<noteq> Dropped then final (mqtt_loop p w)
                else snd (ConnectMqtt broker (final (mqtt_loop p w)))))
       \<and> filter is_ota_handle (trace (final (loop broker p w))) =
           filter is_ota_handle (trace w) @ [OtaHandle]
       \<and> filter is_connected_query (trace (final (loop broker p w))) =
           filter is_connected_query (trace w)
           @ (if session_alive w \<and> p \<noteq> Dropped then [] else [MqttConnected False]))"
proof (cases "session_alive w \<and> callback_set w \<and> restart_message p")
  case True
  then have "session_alive w" and "callback_set w" and "restart_message p"
    by simp_all
  from loop_restarts [OF this, of broker] True show ?thesis
    by simp
next
  case False
  have poll: "returned (mqtt_loop p w) = Some (session_alive w \<and> p \<noteq> Dropped)"
    by (subst mqtt_loop_returns [OF False]) simp
  note pass = loop_returns [OF False, of broker]
  note q = mqtt_loop_quiet [of p w]
  have ota: "filter is_ota_handle (trace (final (loop broker p w))) =
      filter is_ota_handle (trace w) @ [OtaHandle]"
    by (subst pass) (simp add: trace_emits ConnectMqtt_quiet q)
  have cq: "filter is_connected_query (trace (final (loop broker p w))) =
      filter is_connected_query (trace w)
      @ (if session_alive w \<and> p \<noteq> Dropped then [] else [MqttConnected False])"
  proof (cases "session_alive w \<and> p \<noteq> Dropped")
    case True
    then show ?thesis
      by (subst pass) (simp add: trace_emits q)
  next
    case False
    then have dead: "\<not> session_alive (final (mqtt_loop p w))"
      by (rule mqtt_loop_dead)
    from False have "loop broker p w =
        Returns () (emits [OtaHandle] (snd (ConnectMqtt broker (final (mqtt_loop p w)))))"
      by (simp only: pass if_False)
    then have "filter is_connected_query (trace (final (loop broker p w))) =
        filter is_connected_query (trace w) @ [MqttConnected False]"
      using dead by (simp add: trace_emits ConnectMqtt_quiet q)
    with False show ?thesis
      by (simp only: if_False)
  qed
  from poll pass ota cq
  have body: "returned (mqtt_loop p w) = Some (session_alive w \<and> p \<noteq> Dropped)
       \<and> loop broker p w =
           Returns ()
             (emits [OtaHandle]
               (if session_alive w \<and> p \<noteq> Dropped then final (mqtt_loop p w)
                else snd (ConnectMqtt broker (final (mqtt_loop p w)))))
       \<and> filter is_ota_handle (trace (final (loop broker p w))) =
           filter is_ota_handle (trace w) @ [OtaHandle]
       \<and> filter is_connected_query (trace (final (loop broker p w))) =
           filter is_connected_query (trace w)
           @ (if session_alive w \<and> p \<noteq> Dropped then [] else [MqttConnected False])"
    by (intro conjI)
  show ?thesis
    unfolding if_bool_eq_conj using False body by blast
qed

theorem loop_pass_witness:
  "loop (\<lambda>n. True) Dropped (SetupMQTT (\<lambda>n. True) boot) =
     Returns ()
       (emits [OtaHandle]
         (snd (ConnectMqtt (\<lambda>n. True)
           (final (mqtt_loop Dropped (SetupMQTT (\<lambda>n. True) boot))))))
   \<and> filter is_ota_handle
       (trace (final (loop (\<lambda>n. True) Dropped (SetupMQTT (\<lambda>n. True) boot)))) = [OtaHandle]
   \<and> stopped (loop (\<lambda>n. True) (Arrived ''control/gate'' (buffer ''9'') 1)
        (SetupMQTT (\<lambda>n. True) boot)) = Some Restart
   \<and> filter is_ota_handle
       (trace (final (loop (\<lambda>n. True) (Arrived ''control/gate'' (buffer ''9'') 1)
          (SetupMQTT (\<lambda>n. True) boot)))) = []"
proof -
  let ?w = "SetupMQTT (\<lambda>n. True) boot"
  have up: "session_alive ?w \<and> callback_set ?w"
    by (rule SetupMQTT_first_try) (simp_all add: boot_def)
  have none: "filter is_ota_handle (trace ?w) = []"
    by (simp add: SetupMQTT_quiet boot_def)
  have nine: "restart_message (Arrived ''control/gate'' (buffer ''9'') 1)"
    by (simp add: buffer_def)
  have quiet: "\<not> (session_alive ?w \<and> callback_set ?w \<and> restart_message Dropped)"
    by simp
  from up nine
  have stop: "session_alive ?w \<and> callback_set ?w
      \<and> restart_message (Arrived ''control/gate'' (buffer ''9'') 1)"
    by simp
  note t1 = loop_pass [of ?w Dropped "\<lambda>n. True",
    unfolded if_bool_eq_conj, THEN conjunct2, THEN mp, OF quiet]
  note t2 = loop_pass [of ?w "Arrived ''control/gate'' (buffer ''9'') 1" "\<lambda>n. True",
    unfolded if_bool_eq_conj, THEN conjunct1, THEN mp, OF stop]
  from t1 [THEN conjunct2, THEN conjunct1] have a: "loop (\<lambda>n. True) Dropped ?w =
     Returns () (emits [OtaHandle]
       (snd (ConnectMqtt (\<lambda>n. True) (final (mqtt_loop Dropped ?w)))))"
    by simp
  from t1 [THEN conjunct2, THEN conjunct2, THEN conjunct1] none
  have b: "filter is_ota_handle (trace (final (loop (\<lambda>n. True) Dropped ?w)))
      = [OtaHandle]"
    by simp
  from t2 [THEN conjunct1]
  have c: "stopped (loop (\<lambda>n. True) (Arrived ''control/gate'' (buffer ''9'') 1) ?w)
      = Some Restart" .
  from t2 [THEN conjunct2, THEN conjunct1] none
  have d: "filter is_ota_handle
      (trace (final (loop (\<lambda>n. True) (Arrived ''control/gate'' (buffer ''9'') 1) ?w))) = []"
    by simp
  from a b c d show ?thesis by (intro conjI)
qed

end
